theory Spec2Isabelle
  imports Main
begin

section \<open>Python values\<close>

text \<open>
  A Python \<open>str\<close> is a sequence of Unicode code points, so \<open>len\<close>, slicing and the
  regular expressions of the source count code points. The model keeps that: a string is
  a list of code points. \<open>asc\<close> embeds an ASCII literal; the Korean literals of the
  source are written out as code points.
\<close>

type_synonym ustr = "nat list"

definition asc :: "string \<Rightarrow> ustr" where
  "asc s = map of_char s"

text \<open>Python's \<open>k in s\<close> on strings: \<open>k\<close> occurs in \<open>s\<close> as a contiguous run.\<close>

definition startswith :: "ustr \<Rightarrow> ustr \<Rightarrow> bool" where
  "startswith k s = (take (length k) s = k)"

fun contains :: "ustr \<Rightarrow> ustr \<Rightarrow> bool" where
  "contains k [] = (k = [])"
| "contains k (c # cs) = (startswith k (c # cs) \<or> contains k cs)"

text \<open>Python's \<open>sep.join(xs)\<close>.\<close>

fun join :: "ustr \<Rightarrow> ustr list \<Rightarrow> ustr" where
  "join sep [] = []"
| "join sep [x] = x"
| "join sep (x # y # ys) = x @ sep @ join sep (y # ys)"

text \<open>
  The characters \<open>str.isspace\<close> accepts; \<open>str.strip()\<close> and the class \<open>\s\<close> of
  \<open>re\<close> on a \<open>str\<close> pattern use the same set.
\<close>

definition is_space :: "nat \<Rightarrow> bool" where
  "is_space c =
     ((9 \<le> c \<and> c \<le> 13) \<or> (28 \<le> c \<and> c \<le> 32) \<or> c = 133 \<or> c = 160 \<or> c = 5760
      \<or> (8192 \<le> c \<and> c \<le> 8202) \<or> c = 8232 \<or> c = 8233 \<or> c = 8239 \<or> c = 8287
      \<or> c = 12288)"

definition strip :: "ustr \<Rightarrow> ustr" where
  "strip s = rev (dropWhile is_space (rev (dropWhile is_space s)))"

text \<open>\<open>s.split('\n')\<close>: the pieces between line feeds, empty pieces included.\<close>

fun split_lines :: "ustr \<Rightarrow> ustr list" where
  "split_lines [] = [[]]"
| "split_lines (c # cs) =
     (if c = 10 then [] # split_lines cs
      else (case split_lines cs of [] \<Rightarrow> [[c]] | l # ls \<Rightarrow> (c # l) # ls))"

text \<open>
  \<open>s.replace(old, new)\<close> for a non-empty \<open>old\<close>: the occurrences from left to right,
  without overlap. The counter is the number of characters of a replaced occurrence still
  to be skipped.
\<close>

fun replace_from :: "ustr \<Rightarrow> ustr \<Rightarrow> nat \<Rightarrow> ustr \<Rightarrow> ustr" where
  "replace_from old new n [] = []"
| "replace_from old new (Suc n) (c # cs) = replace_from old new n cs"
| "replace_from old new 0 (c # cs) =
     (if old \<noteq> [] \<and> startswith old (c # cs)
      then new @ replace_from old new (length old - 1) cs
      else c # replace_from old new 0 cs)"

definition str_replace :: "ustr \<Rightarrow> ustr \<Rightarrow> ustr \<Rightarrow> ustr" where
  "str_replace old new s = replace_from old new 0 s"

text \<open>\<open>str(n)\<close> for a length.\<close>

function dec_str :: "nat \<Rightarrow> ustr" where
  "dec_str n = (if n < 10 then [48 + n] else dec_str (n div 10) @ [48 + n mod 10])"
  by pat_completeness auto
termination
  by (relation "measure id") auto

text \<open>
  What \<open>json.loads\<close> returns. An object is a Python \<open>dict\<close>: an association list in
  insertion order with distinct keys. A float is kept as the text it was read from; its
  rounding is not modelled, and the places where Python looks at a float's value
  (truth, equality, printing) are functions of the environment below.
\<close>

datatype json =
    JNull
  | JBool bool
  | JInt int
  | JFloat ustr
  | JStr ustr
  | JArr "json list"
  | JObj "(ustr \<times> json) list"

type_synonym pydict = "(ustr \<times> json) list"

text \<open>\<open>k in d\<close>.\<close>

definition has_key :: "pydict \<Rightarrow> ustr \<Rightarrow> bool" where
  "has_key d k = (map_of d k \<noteq> None)"

text \<open>\<open>d.get(k)\<close>: a missing key and a JSON \<open>null\<close> both read as \<open>None\<close>.\<close>

definition dict_get :: "pydict \<Rightarrow> ustr \<Rightarrow> json" where
  "dict_get d k = (case map_of d k of None \<Rightarrow> JNull | Some v \<Rightarrow> v)"

text \<open>\<open>d.get(k, "")\<close>.\<close>

definition dict_get_default :: "pydict \<Rightarrow> ustr \<Rightarrow> json" where
  "dict_get_default d k = (case map_of d k of None \<Rightarrow> JStr [] | Some v \<Rightarrow> v)"

text \<open>\<open>d[k] = v\<close>: a key already present keeps its place and takes the new value.\<close>

fun dict_set :: "pydict \<Rightarrow> ustr \<Rightarrow> json \<Rightarrow> pydict" where
  "dict_set [] k v = [(k, v)]"
| "dict_set ((k', v') # d) k v = (if k' = k then (k, v) # d else (k', v') # dict_set d k v)"

text \<open>
  Exceptions: the \<open>TypeError\<close> the interpreter raises itself, and any exception that
  a collaborator (the language model, a tool handler, the SQL subsystem) raises. Both
  carry the text \<open>str(e)\<close>.
\<close>

datatype pyexc = TypeError ustr | Failure ustr

fun exc_str :: "pyexc \<Rightarrow> ustr" where
  "exc_str (TypeError m) = m"
| "exc_str (Failure m) = m"

section \<open>Regular expressions\<close>

text \<open>
  The fragment of \<open>re\<close> the source's patterns use, with the backtracking order of
  \<open>re\<close>: the members of a sequence left to right, alternatives left to right, \<open>*\<close>
  greedy. The matcher is written in continuation style: \<open>rx_m r s c k\<close> matches \<open>r\<close>
  at the head of \<open>s\<close> and hands the rest of the input and the groups to \<open>k\<close>; when
  \<open>k\<close> fails it tries the next way to match \<open>r\<close>. \<open>Star\<close> gives up an iteration
  that consumes nothing (no pattern of the source has one). \<open>Group n\<close> records the text
  its body matched.
\<close>

datatype rx =
    Chr "nat \<Rightarrow> bool"
  | Lit ustr
  | Cat "rx list"
  | Alt rx rx
  | Star rx
  | Group nat rx

type_synonym caps = "nat \<Rightarrow> ustr option"

function (sequential) rx_m ::
  "rx \<Rightarrow> ustr \<Rightarrow> caps \<Rightarrow> (ustr \<Rightarrow> caps \<Rightarrow> 'a option) \<Rightarrow> 'a option" where
  "rx_m (Chr P) s c k = (case s of [] \<Rightarrow> None | x # xs \<Rightarrow> if P x then k xs c else None)"
| "rx_m (Lit l) s c k = (if startswith l s then k (drop (length l) s) c else None)"
| "rx_m (Cat []) s c k = k s c"
| "rx_m (Cat (r # rs)) s c k = rx_m r s c (\<lambda>s' c'. rx_m (Cat rs) s' c' k)"
| "rx_m (Alt a b) s c k = (case rx_m a s c k of Some x \<Rightarrow> Some x | None \<Rightarrow> rx_m b s c k)"
| "rx_m (Star r) s c k =
     (case rx_m r s c (\<lambda>s' c'. if length s' < length s then rx_m (Star r) s' c' k else None) of
        Some x \<Rightarrow> Some x
      | None \<Rightarrow> k s c)"
| "rx_m (Group n r) s c k =
     rx_m r s c (\<lambda>s' c'. k s' (c'(n := Some (take (length s - length s') s))))"
  by pat_completeness auto
termination
  by (relation "inv_image (measure size <*lex*> measure length) (\<lambda>(r, s, c, k). (r, s))") auto

text \<open>
  A match starting at the head of \<open>s\<close>: the rest of \<open>s\<close> after the match and the
  groups, group 0 being the whole match.
\<close>

definition rx_at :: "rx \<Rightarrow> ustr \<Rightarrow> (ustr \<times> caps) option" where
  "rx_at r s = rx_m (Group 0 r) s (\<lambda>_. None) (\<lambda>s' c'. Some (s', c'))"

text \<open>\<open>re.search\<close>: the leftmost match.\<close>

fun rx_search :: "rx \<Rightarrow> ustr \<Rightarrow> (ustr \<times> caps) option" where
  "rx_search r [] = rx_at r []"
| "rx_search r (x # xs) =
     (case rx_at r (x # xs) of Some m \<Rightarrow> Some m | None \<Rightarrow> rx_search r xs)"

text \<open>
  \<open>re.findall\<close>: the matches from left to right, each search starting where the last
  match ended (one character further after an empty match).
\<close>

function rx_findall :: "rx \<Rightarrow> ustr \<Rightarrow> caps list" where
  "rx_findall r s =
     (case rx_search r s of
        None \<Rightarrow> []
      | Some (rest, c) \<Rightarrow>
          c # (if length rest < length s then rx_findall r rest
               else (case s of [] \<Rightarrow> [] | x # xs \<Rightarrow> rx_findall r xs)))"
  by pat_completeness auto
termination
  by (relation "measure (\<lambda>(r, s). length s)") auto

text \<open>A group that took no part in the match reads as the empty string.\<close>

definition group :: "caps \<Rightarrow> nat \<Rightarrow> ustr" where
  "group c n = (case c n of None \<Rightarrow> [] | Some g \<Rightarrow> g)"

definition ch :: "nat \<Rightarrow> rx" where
  "ch x = Chr (\<lambda>c. c = x)"

definition notin :: "ustr \<Rightarrow> rx" where
  "notin xs = Chr (\<lambda>c. c \<notin> set xs)"

text \<open>
  \<open>\s*\<close>, \<open>[^{}]*\<close>, \<open>(?:\{[^{}]*\}[^{}]*)*\<close>, \<open>[^}]*\<close> and the same with a
  backtick (code point 96) for the closing brace.
\<close>

definition rx_ws :: rx where
  "rx_ws = Star (Chr is_space)"

definition rx_nobrace :: rx where
  "rx_nobrace = Star (notin (asc ''{}''))"

definition rx_nested :: rx where
  "rx_nested = Star (Cat [ch 123, rx_nobrace, ch 125, rx_nobrace])"

definition rx_noclose :: rx where
  "rx_noclose = Star (notin (asc ''}''))"

definition rx_notick :: rx where
  "rx_notick = Star (notin [96])"

text \<open>
  The star of a character class by direct recursion on the input; it computes what
  \<open>rx_m (Star (Chr P))\<close> computes (lemma \<open>rx_m_star_chr\<close> below), in fewer steps.
\<close>

fun star_chr ::
  "(nat \<Rightarrow> bool) \<Rightarrow> ustr \<Rightarrow> caps \<Rightarrow> (ustr \<Rightarrow> caps \<Rightarrow> 'a option) \<Rightarrow> 'a option" where
  "star_chr P [] c k = k [] c"
| "star_chr P (x # xs) c k =
     (if P x then (case star_chr P xs c k of Some r \<Rightarrow> Some r | None \<Rightarrow> k (x # xs) c)
      else k (x # xs) c)"

section \<open>JSON decoding\<close>

text \<open>
  \<open>json.loads\<close> as the source uses it (a \<open>str\<close> argument, no hooks), following the
  scanner of the \<open>json\<close> module: white space is space, tab, line feed and carriage
  return; strings are scanned in strict mode; \<open>NaN\<close>, \<open>Infinity\<close> and \<open>-Infinity\<close>
  are accepted. Every failure of the scanner is the one exception \<open>JSONDecodeError\<close>.
  The interpreter's own limits (recursion depth, the length of an integer literal) are
  not modelled.
\<close>

definition is_json_ws :: "nat \<Rightarrow> bool" where
  "is_json_ws c = (c = 32 \<or> c = 9 \<or> c = 10 \<or> c = 13)"

definition skip_ws :: "ustr \<Rightarrow> ustr" where
  "skip_ws s = dropWhile is_json_ws s"

definition is_digit :: "nat \<Rightarrow> bool" where
  "is_digit c = (48 \<le> c \<and> c \<le> 57)"

definition hexval :: "nat \<Rightarrow> nat option" where
  "hexval c =
     (if 48 \<le> c \<and> c \<le> 57 then Some (c - 48)
      else if 97 \<le> c \<and> c \<le> 102 then Some (c - 87)
      else if 65 \<le> c \<and> c \<le> 70 then Some (c - 55)
      else None)"

definition hex4 :: "nat \<Rightarrow> nat \<Rightarrow> nat \<Rightarrow> nat \<Rightarrow> nat option" where
  "hex4 a b c d =
     (case (hexval a, hexval b, hexval c, hexval d) of
        (Some w, Some x, Some y, Some z) \<Rightarrow> Some (((w * 16 + x) * 16 + y) * 16 + z)
      | _ \<Rightarrow> None)"

definition escape_char :: "nat \<Rightarrow> nat option" where
  "escape_char c =
     (if c = 34 then Some 34 else if c = 92 then Some 92 else if c = 47 then Some 47
      else if c = 98 then Some 8 else if c = 102 then Some 12 else if c = 110 then Some 10
      else if c = 114 then Some 13 else if c = 116 then Some 9 else None)"

definition cons_result :: "nat \<Rightarrow> (ustr \<times> ustr) option \<Rightarrow> (ustr \<times> ustr) option" where
  "cons_result x r = (case r of None \<Rightarrow> None | Some (s, rest) \<Rightarrow> Some (x # s, rest))"

text \<open>
  \<open>scanstring\<close> in strict mode, from the character after the opening quote: the decoded
  string and the input after the closing quote. A high surrogate escape directly followed
  by a low surrogate escape is one code point.
\<close>

fun scanstring :: "ustr \<Rightarrow> (ustr \<times> ustr) option" where
  "scanstring [] = None"
| "scanstring (c # cs) =
     (if c = 34 then Some ([], cs)
      else if c < 32 then None
      else if c \<noteq> 92 then cons_result c (scanstring cs)
      else (case cs of
              [] \<Rightarrow> None
            | e # r \<Rightarrow>
                if e \<noteq> 117 then
                  (case escape_char e of None \<Rightarrow> None | Some x \<Rightarrow> cons_result x (scanstring r))
                else
                  (case r of
                     h1 # h2 # h3 # h4 # r' \<Rightarrow>
                       (case hex4 h1 h2 h3 h4 of
                          None \<Rightarrow> None
                        | Some uni \<Rightarrow>
                            if 55296 \<le> uni \<and> uni \<le> 56319 \<and> startswith [92, 117] r' then
                              (case r' of
                                 b # u # g1 # g2 # g3 # g4 # r'' \<Rightarrow>
                                   (case hex4 g1 g2 g3 g4 of
                                      None \<Rightarrow> None
                                    | Some uni2 \<Rightarrow>
                                        if 56320 \<le> uni2 \<and> uni2 \<le> 57343 then
                                          cons_result
                                            (65536 + ((uni - 55296) * 1024 + (uni2 - 56320)))
                                            (scanstring r'')
                                        else cons_result uni (scanstring r'))
                               | _ \<Rightarrow> None)
                            else cons_result uni (scanstring r'))
                   | _ \<Rightarrow> None)))"

text \<open>Decimal digits to a number.\<close>

definition digits_val :: "ustr \<Rightarrow> nat" where
  "digits_val ds = foldl (\<lambda>n d. 10 * n + (d - 48)) 0 ds"

text \<open>
  The number at the head of the input, by the grammar
  \<open>-?(0|[1-9][0-9]*)(\.[0-9]+)?([eE][-+]?[0-9]+)?\<close>: an integer when it has neither
  fraction nor exponent, a float otherwise.
\<close>

definition scan_number :: "ustr \<Rightarrow> (json \<times> ustr) option" where
  "scan_number s =
     (let (sign, s1) = (case s of c # cs \<Rightarrow> if c = 45 then ([45], cs) else ([], s) | [] \<Rightarrow> ([], s));
          ip = (case s1 of
                  c # cs \<Rightarrow> if c = 48 then [48]
                             else if 49 \<le> c \<and> c \<le> 57 then c # takeWhile is_digit cs
                             else []
                | [] \<Rightarrow> []);
          s2 = drop (length ip) s1;
          fr = (case s2 of
                  c # d # cs \<Rightarrow> if c = 46 \<and> is_digit d then c # d # takeWhile is_digit cs else []
                | _ \<Rightarrow> []);
          s3 = drop (length fr) s2;
          ex = (case s3 of
                  c # cs \<Rightarrow>
                    if c = 101 \<or> c = 69 then
                      (let sg = (case cs of d # ds \<Rightarrow> if d = 45 \<or> d = 43 then [d] else [] | [] \<Rightarrow> []);
                           dg = takeWhile is_digit (drop (length sg) cs)
                       in if dg = [] then [] else c # sg @ dg)
                    else []
                | [] \<Rightarrow> []);
          s4 = drop (length ex) s3
      in if ip = [] then None
         else if fr = [] \<and> ex = [] then
           Some (JInt (if sign = [] then int (digits_val ip) else - int (digits_val ip)), s4)
         else Some (JFloat (sign @ ip @ fr @ ex), s4))"

text \<open>
  The scanner. \<open>parse_value\<close> reads the value at the head of the input;
  \<open>parse_members\<close> reads the members of an object from the character after the opening
  quote of a key; \<open>parse_elements\<close> reads the elements of an array from the head of an
  element. Each returns what it read and the input after it. The length tests only make
  the recursion visibly well-founded: what a scanner returns is shorter than its input.
\<close>

function parse_value :: "ustr \<Rightarrow> (json \<times> ustr) option"
  and parse_members :: "pydict \<Rightarrow> ustr \<Rightarrow> (pydict \<times> ustr) option"
  and parse_elements :: "json list \<Rightarrow> ustr \<Rightarrow> (json list \<times> ustr) option" where
  "parse_value s =
     (case s of
        [] \<Rightarrow> None
      | c # cs \<Rightarrow>
          if c = 34 then
            (case scanstring cs of None \<Rightarrow> None | Some (str, r) \<Rightarrow> Some (JStr str, r))
          else if c = 123 then
            (case skip_ws cs of
               [] \<Rightarrow> None
             | d # ds \<Rightarrow>
                 if d = 125 then Some (JObj [], ds)
                 else if d = 34 then
                   (case parse_members [] ds of
                      None \<Rightarrow> None
                    | Some (kvs, r) \<Rightarrow> Some (JObj kvs, r))
                 else None)
          else if c = 91 then
            (case skip_ws cs of
               [] \<Rightarrow> None
             | d # ds \<Rightarrow>
                 if d = 93 then Some (JArr [], ds)
                 else
                   (case parse_elements [] (d # ds) of
                      None \<Rightarrow> None
                    | Some (vs, r) \<Rightarrow> Some (JArr vs, r)))
          else if startswith (asc ''null'') s then Some (JNull, drop 4 s)
          else if startswith (asc ''true'') s then Some (JBool True, drop 4 s)
          else if startswith (asc ''false'') s then Some (JBool False, drop 5 s)
          else if startswith (asc ''NaN'') s then Some (JFloat (asc ''NaN''), drop 3 s)
          else if startswith (asc ''Infinity'') s then Some (JFloat (asc ''Infinity''), drop 8 s)
          else if startswith (asc ''-Infinity'') s then Some (JFloat (asc ''-Infinity''), drop 9 s)
          else scan_number s)"
| "parse_members acc s =
     (case scanstring s of
        None \<Rightarrow> None
      | Some (key, r1) \<Rightarrow>
          (case skip_ws r1 of
             [] \<Rightarrow> None
           | c # r2 \<Rightarrow>
               if c \<noteq> 58 then None
               else if \<not> length (skip_ws r2) < length s then None
               else
                 (case parse_value (skip_ws r2) of
                    None \<Rightarrow> None
                  | Some (v, r3) \<Rightarrow>
                      (case skip_ws r3 of
                         [] \<Rightarrow> None
                       | d # r4 \<Rightarrow>
                           if d = 125 then Some (dict_set acc key v, r4)
                           else if d = 44 then
                             (case skip_ws r4 of
                                [] \<Rightarrow> None
                              | q # r5 \<Rightarrow>
                                  if q = 34 \<and> length r5 < length s
                                  then parse_members (dict_set acc key v) r5
                                  else None)
                           else None))))"
| "parse_elements acc s =
     (case parse_value s of
        None \<Rightarrow> None
      | Some (v, r1) \<Rightarrow>
          (case skip_ws r1 of
             [] \<Rightarrow> None
           | d # r2 \<Rightarrow>
               if d = 93 then Some (acc @ [v], r2)
               else if d = 44 \<and> length (skip_ws r2) < length s
               then parse_elements (acc @ [v]) (skip_ws r2)
               else None))"
  by pat_completeness auto
termination
proof (relation "measure (\<lambda>x. case x of
                      Inl s \<Rightarrow> 2 * length s
                    | Inr (Inl (acc, s)) \<Rightarrow> 2 * length s + 1
                    | Inr (Inr (acc, s)) \<Rightarrow> 2 * length s + 1)", goal_cases)
  case 1
  then show ?case by simp
next
  case (2 s c cs d ds)
  then show ?case using length_dropWhile_le [of is_json_ws cs] by (simp add: skip_ws_def)
next
  case (3 s c cs d ds)
  then show ?case using length_dropWhile_le [of is_json_ws cs] by (simp add: skip_ws_def)
qed simp_all

text \<open>
  \<open>json.loads\<close>: \<open>None\<close> is \<open>JSONDecodeError\<close>. White space may surround the value;
  anything else after it is an error.
\<close>

definition json_loads :: "ustr \<Rightarrow> json option" where
  "json_loads s =
     (case parse_value (skip_ws s) of
        None \<Rightarrow> None
      | Some (v, rest) \<Rightarrow> if skip_ws rest = [] then Some v else None)"

section \<open>Run state and environment\<close>

text \<open>
  \<open>StockSearchState\<close>. \<open>validation_status\<close> is one of four string constants in the
  source, here an enumeration. Of the diagnostic fields the model keeps \<open>node_traces\<close>
  and \<open>tool_results\<close> without their clock readings and descriptions (\<open>timestamp\<close>,
  \<open>execution_time\<close>, \<open>description\<close>); \<open>execution_log\<close> and \<open>state_history\<close> are
  written the same way, are never read by a routing decision, and are left out. A tool
  call is the \<open>dict\<close> the call parser produced.
\<close>

datatype message = HumanMessage ustr | AIMessage ustr

datatype vstatus = Pending | Success | ParamMissing | ToolError

record node_trace =
  nt_node_name :: ustr
  nt_iterations :: int
  nt_validation_status :: vstatus
  nt_tool_calls_count :: nat

record tool_result_detail =
  tr_tool_name :: json
  tr_tool_args :: json
  tr_full_result :: ustr
  tr_status :: vstatus

record state =
  messages :: "message list"
  query :: ustr
  result :: ustr
  tool_calls :: "pydict list"
  iterations :: int
  validation_status :: vstatus
  clarification_needed :: bool
  retry_count :: int
  tool_results :: "tool_result_detail list"
  node_traces :: "node_trace list"
  current_tool_index :: int
  pending_tools :: "pydict list"
  completed_tools :: "pydict list"
  tool_execution_results :: "ustr list"

text \<open>
  What the agent is built from and what it calls out to.
  \<^item> \<open>llm_main p\<close> is \<open>self.llm_main.invoke([HumanMessage(content=p)]).content\<close>, and
    \<open>llm_simple\<close> the same for the model the query parser holds;
  \<^item> \<open>tools\<close> is \<open>self.tools\<close>, each entry a name and the function \<open>tool.func\<close>;
  \<^item> \<open>execute_text2sql q\<close> is \<open>self.text2sql_node.execute_text2sql(q, [], ...)\<close>;
  \<^item> \<open>agent_prompt q\<close> is the prompt \<open>agent_node\<close> assembles for the query \<open>q\<close>
    (with today's date and the tool descriptions; its text is not reproduced);
  \<^item> \<open>py_str\<close>, \<open>float_truth\<close> and \<open>float_eq\<close> are Python's \<open>str\<close>, truth value
    and \<open>==\<close> where a float or the printed form of a container is involved, and
    \<open>json_dumps\<close> is \<open>json.dumps\<close> on a \<open>dict\<close>;
  \<^item> \<open>is_word\<close> and \<open>digit_val\<close> are the Unicode tables behind the classes \<open>\w\<close>
    and \<open>\d\<close> of \<open>re\<close> (and behind \<open>int\<close> on a string of digits), and
    \<open>py_lower\<close> is \<open>str.lower\<close>.
  Each call to a collaborator may raise: it returns the exception or the value.
\<close>

record env =
  llm_main :: "ustr \<Rightarrow> pyexc + ustr"
  llm_simple :: "ustr \<Rightarrow> pyexc + ustr"
  tools :: "(ustr \<times> (json \<Rightarrow> pyexc + ustr)) list"
  execute_text2sql :: "json \<Rightarrow> pyexc + ustr"
  agent_prompt :: "ustr \<Rightarrow> ustr"
  enable_detailed_logging :: bool
  py_str :: "json \<Rightarrow> ustr"
  float_truth :: "ustr \<Rightarrow> bool"
  float_eq :: "ustr \<Rightarrow> json \<Rightarrow> bool"
  json_dumps :: "pydict \<Rightarrow> ustr"
  is_word :: "nat \<Rightarrow> bool"
  digit_val :: "nat \<Rightarrow> nat option"
  py_lower :: "ustr \<Rightarrow> ustr"

text \<open>A value inside an f-string: a string stands for itself, anything else is printed.\<close>

definition fmt :: "env \<Rightarrow> json \<Rightarrow> ustr" where
  "fmt e v = (case v of JStr s \<Rightarrow> s | _ \<Rightarrow> py_str e v)"

text \<open>Python's truth value of a decoded JSON value (\<open>if tool_args\<close>).\<close>

fun truthy :: "env \<Rightarrow> json \<Rightarrow> bool" where
  "truthy e JNull = False"
| "truthy e (JBool b) = b"
| "truthy e (JInt n) = (n \<noteq> 0)"
| "truthy e (JFloat x) = float_truth e x"
| "truthy e (JStr s) = (s \<noteq> [])"
| "truthy e (JArr xs) = (xs \<noteq> [])"
| "truthy e (JObj kvs) = (kvs \<noteq> [])"

text \<open>
  A \<open>list\<close> or a \<open>dict\<close> cannot be hashed: putting one into a set, or a tuple that
  holds one, raises \<open>TypeError\<close>.
\<close>

definition hashable :: "json \<Rightarrow> bool" where
  "hashable v = (case v of JArr _ \<Rightarrow> False | JObj _ \<Rightarrow> False | _ \<Rightarrow> True)"

definition unhashable :: "json \<Rightarrow> pyexc" where
  "unhashable v =
     TypeError (asc ''unhashable type: '' @ [39] @
                (case v of JArr _ \<Rightarrow> asc ''list'' | _ \<Rightarrow> asc ''dict'') @ [39])"

text \<open>
  \<open>a == b\<close> on hashable values: \<open>None\<close> equals \<open>None\<close>, a string equals the same
  string, and \<open>bool\<close> and \<open>int\<close> compare as numbers (\<open>True == 1\<close>).
\<close>

definition num_of :: "json \<Rightarrow> int option" where
  "num_of v = (case v of JBool b \<Rightarrow> Some (if b then 1 else 0) | JInt n \<Rightarrow> Some n | _ \<Rightarrow> None)"

definition py_eq :: "env \<Rightarrow> json \<Rightarrow> json \<Rightarrow> bool" where
  "py_eq e a b =
     (case (a, b) of
        (JFloat x, _) \<Rightarrow> float_eq e x b
      | (_, JFloat y) \<Rightarrow> float_eq e y a
      | (JStr s, JStr t) \<Rightarrow> s = t
      | (JNull, JNull) \<Rightarrow> True
      | _ \<Rightarrow> (case (num_of a, num_of b) of (Some m, Some n) \<Rightarrow> m = n | _ \<Rightarrow> False))"

definition key_name :: ustr where
  "key_name = asc ''name''"

definition key_args :: ustr where
  "key_args = asc ''args''"

definition key_action :: ustr where
  "key_action = asc ''action''"

definition text2sql :: ustr where
  "text2sql = asc ''text2sql''"

definition is_text2sql :: "pydict \<Rightarrow> bool" where
  "is_text2sql call = (dict_get call key_name = JStr text2sql)"

section \<open>Logging\<close>

definition log_state_change :: "env \<Rightarrow> state \<Rightarrow> ustr \<Rightarrow> state" where
  "log_state_change e s node_name =
     (if \<not> enable_detailed_logging e then s
      else s\<lparr>node_traces := node_traces s @
             [\<lparr>nt_node_name = node_name,
               nt_iterations = iterations s,
               nt_validation_status = validation_status s,
               nt_tool_calls_count = length (tool_calls s)\<rparr>]\<rparr>)"

section \<open>The call parser: \<open>_parse_tool_calls\<close>\<close>

text \<open>
  The five patterns. \<open>pattern1\<close> is
  \<open>TOOL_CALL:\s*(\{[^{}]*(?:\{[^{}]*\}[^{}]*)*\})\<close>; \<open>pattern2\<close> has four
  alternatives with one group each: a fenced \<open>json\<close> block holding an object with
  \<open>"action"\<close> and \<open>"text2sql"\<close>, any fenced \<open>json\<close> block, an object in backticks
  after an arrow (code point 8594), and an object in backticks; \<open>pattern3\<close> is
  \<open>(\{[^{}]*"action"[^{}]*"text2sql"[^{}]*\})\<close>; \<open>pattern4\<close> is
  \<open>(\{[^{}]*"name"[^{}]*"args"[^{}]*(?:\{[^{}]*\}[^{}]*)*\})\<close>; \<open>pattern5\<close> is
  \<open>pattern3\<close> after \<open>TEXT2SQL:\s*\<close>, with the nested braces of \<open>pattern1\<close>.
\<close>

definition quoted :: "string \<Rightarrow> ustr" where
  "quoted w = [34] @ asc w @ [34]"

definition fence :: ustr where
  "fence = [96, 96, 96]"

definition pattern1 :: rx where
  "pattern1 =
     Cat [Lit (asc ''TOOL_CALL:''), rx_ws,
          Group 1 (Cat [ch 123, rx_nobrace, rx_nested, ch 125])]"

definition pattern2 :: rx where
  "pattern2 =
     Alt (Cat [Lit (fence @ asc ''json''), rx_ws,
               Group 1 (Cat [ch 123, rx_noclose, Lit (quoted ''action''), rx_noclose,
                             Lit (quoted ''text2sql''), rx_noclose, ch 125]),
               rx_ws, Lit fence])
    (Alt (Cat [Lit (fence @ asc ''json''), rx_ws,
               Group 2 (Cat [ch 123, rx_noclose, ch 125]),
               rx_ws, Lit fence])
    (Alt (Cat [ch 8594, rx_ws, ch 96, Group 3 (Cat [ch 123, rx_notick, ch 125]), ch 96])
         (Cat [ch 96, Group 4 (Cat [ch 123, rx_notick, ch 125]), ch 96])))"

definition pattern3 :: rx where
  "pattern3 =
     Group 1 (Cat [ch 123, rx_nobrace, Lit (quoted ''action''), rx_nobrace,
                   Lit (quoted ''text2sql''), rx_nobrace, ch 125])"

definition pattern4 :: rx where
  "pattern4 =
     Group 1 (Cat [ch 123, rx_nobrace, Lit (quoted ''name''), rx_nobrace,
                   Lit (quoted ''args''), rx_nobrace, rx_nested, ch 125])"

definition pattern5 :: rx where
  "pattern5 =
     Cat [Lit (asc ''TEXT2SQL:''), rx_ws,
          Group 1 (Cat [ch 123, rx_nobrace, Lit (quoted ''action''), rx_nobrace,
                        Lit (quoted ''text2sql''), rx_nobrace, rx_nested, ch 125])]"

text \<open>\<open>re.findall\<close> with one group gives the group; with four, a tuple of the four.\<close>

definition findall1 :: "rx \<Rightarrow> ustr \<Rightarrow> ustr list" where
  "findall1 r s = map (\<lambda>c. group c 1) (rx_findall r s)"

definition findall4 :: "rx \<Rightarrow> ustr \<Rightarrow> ustr list list" where
  "findall4 r s = map (\<lambda>c. [group c 1, group c 2, group c 3, group c 4]) (rx_findall r s)"

text \<open>
  Every group of the five patterns starts with a brace, so what \<open>json.loads\<close> decodes
  from a match is an object. The passes below keep a branch for any other value, where
  the membership test of the source does not apply to it: the branch raises.
\<close>

definition not_a_dict :: pyexc where
  "not_a_dict = TypeError (asc ''not a dict'')"

text \<open>\<open>'action' in tool_call and tool_call['action'] == 'text2sql'\<close>.\<close>

definition is_directive :: "pydict \<Rightarrow> bool" where
  "is_directive d = (map_of d key_action = Some (JStr text2sql))"

text \<open>\<open>{'name': 'text2sql', 'args': json.dumps(tool_call)}\<close>.\<close>

definition sql_call :: "env \<Rightarrow> pydict \<Rightarrow> pydict" where
  "sql_call e d = [(key_name, JStr text2sql), (key_args, JStr (json_dumps e d))]"

text \<open>Pass 1: the matches of \<open>pattern1\<close>; \<open>tc\<close> is the list \<open>tool_calls\<close> so far.\<close>

fun pass1 :: "ustr list \<Rightarrow> pydict list \<Rightarrow> pyexc + pydict list" where
  "pass1 [] tc = Inr tc"
| "pass1 (m # ms) tc =
     (case json_loads (strip m) of
        None \<Rightarrow> pass1 ms tc
      | Some (JObj tool_call) \<Rightarrow>
          pass1 ms (if has_key tool_call key_name \<and> has_key tool_call key_args
                    then tc @ [tool_call] else tc)
      | Some _ \<Rightarrow> Inl not_a_dict)"

text \<open>Pass 2: the non-empty groups of the matches of \<open>pattern2\<close>, in order.\<close>

fun pass2 :: "env \<Rightarrow> ustr list \<Rightarrow> pydict list \<Rightarrow> pyexc + pydict list" where
  "pass2 e [] tc = Inr tc"
| "pass2 e (m # ms) tc =
     (case json_loads (strip m) of
        None \<Rightarrow> pass2 e ms tc
      | Some (JObj tool_call) \<Rightarrow>
          pass2 e ms (if is_directive tool_call then tc @ [sql_call e tool_call]
                      else if has_key tool_call key_name \<and> has_key tool_call key_args
                      then tc @ [tool_call] else tc)
      | Some _ \<Rightarrow> Inl not_a_dict)"

text \<open>Passes 3 and 5: the matches of \<open>pattern3\<close> and of \<open>pattern5\<close>.\<close>

fun pass3 :: "env \<Rightarrow> ustr list \<Rightarrow> pydict list \<Rightarrow> pyexc + pydict list" where
  "pass3 e [] tc = Inr tc"
| "pass3 e (m # ms) tc =
     (case json_loads (strip m) of
        None \<Rightarrow> pass3 e ms tc
      | Some (JObj text2sql_call) \<Rightarrow>
          pass3 e ms (if is_directive text2sql_call then tc @ [sql_call e text2sql_call] else tc)
      | Some _ \<Rightarrow> Inl not_a_dict)"

text \<open>
  Pass 4: the matches of \<open>pattern4\<close>. An \<open>args\<close> that is an object is replaced by a
  string: the values under the two Korean keys (stock name, date) set into a question
  when both keys are present, the printed object otherwise.
\<close>

definition key_stock_name :: ustr where
  "key_stock_name = [51333, 47785, 47749]"

definition key_date :: ustr where
  "key_date = [45216, 51676]"

definition lit_of :: ustr where
  "lit_of = [51032, 32]"

definition lit_open_price :: ustr where
  "lit_open_price = [32, 49884, 44032, 45716, 63]"

definition flatten_args :: "env \<Rightarrow> pydict \<Rightarrow> pydict" where
  "flatten_args e tool_call =
     (case dict_get tool_call key_args of
        JObj args_dict \<Rightarrow>
          if has_key args_dict key_stock_name \<and> has_key args_dict key_date
          then dict_set tool_call key_args
                 (JStr (fmt e (dict_get args_dict key_stock_name) @ lit_of @
                        fmt e (dict_get args_dict key_date) @ lit_open_price))
          else dict_set tool_call key_args (JStr (py_str e (JObj args_dict)))
      | _ \<Rightarrow> tool_call)"

fun pass4 :: "env \<Rightarrow> ustr list \<Rightarrow> pydict list \<Rightarrow> pyexc + pydict list" where
  "pass4 e [] tc = Inr tc"
| "pass4 e (m # ms) tc =
     (case json_loads (strip m) of
        None \<Rightarrow> pass4 e ms tc
      | Some (JObj tool_call) \<Rightarrow>
          pass4 e ms (if has_key tool_call key_name \<and> has_key tool_call key_args
                      then tc @ [flatten_args e tool_call] else tc)
      | Some _ \<Rightarrow> Inl not_a_dict)"

text \<open>
  The removal of duplicates. \<open>seen\<close> is a set of tuples \<open>(name, args)\<close>: looking a
  tuple up hashes its two members in turn, and then compares it with the members of the
  set.
\<close>

fun dedup :: "env \<Rightarrow> pydict list \<Rightarrow> (json \<times> json) list \<Rightarrow> pydict list \<Rightarrow> pyexc + pydict list" where
  "dedup e [] seen unique_tool_calls = Inr unique_tool_calls"
| "dedup e (call # calls) seen unique_tool_calls =
     (let n = dict_get call key_name; a = dict_get call key_args
      in if \<not> hashable n then Inl (unhashable n)
         else if \<not> hashable a then Inl (unhashable a)
         else if \<exists>(n', a') \<in> set seen. py_eq e n n' \<and> py_eq e a a'
         then dedup e calls seen unique_tool_calls
         else dedup e calls (seen @ [(n, a)]) (unique_tool_calls @ [call]))"

definition parse_tool_calls :: "env \<Rightarrow> ustr \<Rightarrow> pyexc + pydict list" where
  "parse_tool_calls e content =
     (let matches1 = findall1 pattern1 content;
          matches2 = findall4 pattern2 content;
          matches3 = findall1 pattern3 content;
          matches4 = findall1 pattern4 content;
          matches5 = findall1 pattern5 content
      in case pass1 matches1 [] of
           Inl ex \<Rightarrow> Inl ex
         | Inr tc1 \<Rightarrow>
        (case pass2 e (concat (map (filter (\<lambda>m. m \<noteq> [])) matches2)) tc1 of
           Inl ex \<Rightarrow> Inl ex
         | Inr tc2 \<Rightarrow>
        (case pass3 e matches3 tc2 of
           Inl ex \<Rightarrow> Inl ex
         | Inr tc3 \<Rightarrow>
        (case pass4 e matches4 tc3 of
           Inl ex \<Rightarrow> Inl ex
         | Inr tc4 \<Rightarrow>
        (case pass3 e matches5 tc4 of
           Inl ex \<Rightarrow> Inl ex
         | Inr tc5 \<Rightarrow> dedup e tc5 [] [])))))"

section \<open>The proposing stage: \<open>agent_node\<close>\<close>

definition agent_node :: "env \<Rightarrow> state \<Rightarrow> pyexc + state" where
  "agent_node e s0 =
     (let msgs = messages s0;
          q = query s0;
          s = log_state_change e s0 (asc ''agent_node'')
      in case llm_main e (agent_prompt e q) of
           Inl ex \<Rightarrow> Inl ex
         | Inr content \<Rightarrow>
             Inr (log_state_change e
                    (s\<lparr>messages := msgs @ [HumanMessage q, AIMessage content],
                       iterations := iterations s + 1\<rparr>)
                    (asc ''agent_node'')))"

section \<open>The parsing stage: \<open>parse_node\<close>\<close>

text \<open>The content of the last \<open>AIMessage\<close>, the empty string when there is none.\<close>

fun last_ai_content :: "message list \<Rightarrow> ustr" where
  "last_ai_content [] = []"
| "last_ai_content (m # ms) =
     (case m of AIMessage content \<Rightarrow> content | HumanMessage _ \<Rightarrow> last_ai_content ms)"

definition parse_node :: "env \<Rightarrow> state \<Rightarrow> pyexc + state" where
  "parse_node e s0 =
     (let msgs = messages s0;
          s = log_state_change e s0 (asc ''parse_node'');
          ai_response = last_ai_content (rev msgs)
      in case parse_tool_calls e ai_response of
           Inl ex \<Rightarrow> Inl ex
         | Inr calls \<Rightarrow>
             Inr (log_state_change e
                    (s\<lparr>tool_calls := calls,
                       pending_tools := calls,
                       current_tool_index := 0,
                       completed_tools := [],
                       tool_execution_results := []\<rparr>)
                    (asc ''parse_node'')))"

section \<open>The structured execution stage: \<open>tools_node\<close>\<close>

text \<open>The five phrases that mark a missing parameter in a handler's output.\<close>

definition error_keywords :: "ustr list" where
  "error_keywords =
     [[51656, 47928, 51012, 32, 51060, 54644, 54624, 32, 49688, 32, 50630, 49845, 45768, 45796],
      [45216, 51676, 32, 51221, 48372, 47484, 32, 52286, 51012, 32, 49688, 32, 50630, 49845, 45768, 45796],
      [51312, 44148, 51012, 32, 52286, 51012, 32, 49688, 32, 50630, 49845, 45768, 45796],
      [51076, 44228, 44050, 51012, 32, 52286, 51012, 32, 49688, 32, 50630, 49845, 45768, 45796],
      [54028, 46972, 48120, 53552, 47484, 32, 52628, 52636, 54624, 32, 49688, 32, 50630, 49845, 45768, 45796]]"

text \<open>
  The Korean literals of the result lines: \<open>lit_result\<close> follows the tool name of a
  normal result ("result:"), \<open>lit_unknown_tool\<close> precedes the name of an unregistered
  tool ("unknown tool:"), \<open>lit_error\<close> follows the tool name of a failed call
  ("error:").
\<close>

definition lit_result :: ustr where
  "lit_result = [32, 44208, 44284, 58, 32]"

definition lit_unknown_tool :: ustr where
  "lit_unknown_tool = [50508, 32, 49688, 32, 50630, 45716, 32, 46020, 44396, 58, 32]"

definition lit_error :: ustr where
  "lit_error = [32, 50724, 47448, 58, 32]"

text \<open>
  The registry. \<open>QueryParser.tool_mappings\<close> maps a tool name to its handler, a method
  that answers with a text or raises. \<open>parse_and_execute\<close> runs the handler of a name
  inside \<open>try\<close> / \<open>except Exception\<close>: a name without a handler gives the text
  \<open>lit_unknown_tool + name\<close>, an exception of the handler the text
  \<open>name + lit_exec_error + str(e)\<close> ("error while running"); it never raises.
  \<open>_create_tools\<close> makes one tool for each name of \<open>tool_mappings\<close>, whose function
  is \<open>parse_and_execute\<close> at that name.
\<close>

definition lit_exec_error :: ustr where
  "lit_exec_error = [32, 49892, 54665, 32, 51473, 32, 50724, 47448, 58, 32]"

definition parse_and_execute ::
  "(ustr \<times> (json \<Rightarrow> pyexc + ustr)) list \<Rightarrow> ustr \<Rightarrow> json \<Rightarrow> ustr" where
  "parse_and_execute tool_mappings tool_name q =
     (case map_of tool_mappings tool_name of
        None \<Rightarrow> lit_unknown_tool @ tool_name
      | Some handler \<Rightarrow>
          (case handler q of
             Inr res \<Rightarrow> res
           | Inl ex \<Rightarrow> tool_name @ lit_exec_error @ exc_str ex))"

definition create_tools ::
  "(ustr \<times> (json \<Rightarrow> pyexc + ustr)) list \<Rightarrow> (ustr \<times> (json \<Rightarrow> pyexc + ustr)) list" where
  "create_tools tool_mappings =
     map (\<lambda>tool_name. (tool_name, \<lambda>q. Inr (parse_and_execute tool_mappings tool_name q)))
         (map fst tool_mappings)"

text \<open>
  The lookup loop over \<open>self.tools\<close>: the first tool whose name equals \<open>tool_name\<close>.
  A name that is not a string equals no tool's name.
\<close>

definition find_tool :: "env \<Rightarrow> json \<Rightarrow> (json \<Rightarrow> pyexc + ustr) option" where
  "find_tool e tool_name = (case tool_name of JStr n \<Rightarrow> map_of (tools e) n | _ \<Rightarrow> None)"

text \<open>
  The variables the loop updates: \<open>results\<close>, \<open>tool_execution_results\<close>,
  \<open>tool_results\<close> and \<open>validation_status\<close>.
\<close>

record tools_acc =
  acc_results :: "ustr list"
  acc_exec_results :: "ustr list"
  acc_tool_results :: "tool_result_detail list"
  acc_status :: vstatus

text \<open>One iteration of \<open>for tool_call in regular_tools\<close>, its \<open>try\<close> included.\<close>

definition tools_step :: "env \<Rightarrow> tools_acc \<Rightarrow> pydict \<Rightarrow> tools_acc" where
  "tools_step e a tool_call =
     (let tool_name = dict_get tool_call key_name;
          tool_args = dict_get_default tool_call key_args
      in case find_tool e tool_name of
           Some tool_func \<Rightarrow>
             (case tool_func tool_args of
                Inr res \<Rightarrow>
                  (let st = (if \<exists>k \<in> set error_keywords. contains k res
                             then ParamMissing else acc_status a);
                       line = fmt e tool_name @ lit_result @ res
                   in \<lparr>acc_results = acc_results a @ [line],
                       acc_exec_results = acc_exec_results a @ [line],
                       acc_tool_results = acc_tool_results a @
                         [\<lparr>tr_tool_name = tool_name, tr_tool_args = tool_args,
                           tr_full_result = res, tr_status = st\<rparr>],
                       acc_status = st\<rparr>)
              | Inl ex \<Rightarrow>
                  (let line = fmt e tool_name @ lit_error @ exc_str ex
                   in a\<lparr>acc_results := acc_results a @ [line],
                        acc_exec_results := acc_exec_results a @ [line],
                        acc_status := ToolError\<rparr>))
         | None \<Rightarrow>
             (let line = lit_unknown_tool @ fmt e tool_name
              in a\<lparr>acc_results := acc_results a @ [line],
                   acc_exec_results := acc_exec_results a @ [line],
                   acc_status := ToolError\<rparr>))"

definition tools_loop :: "env \<Rightarrow> tools_acc \<Rightarrow> pydict list \<Rightarrow> tools_acc" where
  "tools_loop e a calls = foldl (tools_step e) a calls"

definition tools_node :: "env \<Rightarrow> state \<Rightarrow> state" where
  "tools_node e s0 =
     (let calls = tool_calls s0;
          msgs = messages s0;
          s = log_state_change e s0 (asc ''tools_node'');
          regular_tools = filter (\<lambda>call. \<not> is_text2sql call) calls
      in if regular_tools = [] then s\<lparr>validation_status := Success\<rparr>
         else
           (let a = tools_loop e
                      \<lparr>acc_results = [],
                        acc_exec_results = tool_execution_results s,
                        acc_tool_results = tool_results s,
                        acc_status = Success\<rparr> regular_tools;
                tool_result = join [10, 10] (acc_results a)
            in log_state_change e
                 (s\<lparr>messages := msgs @ [AIMessage tool_result],
                    result := tool_result,
                    validation_status := acc_status a,
                    tool_results := acc_tool_results a,
                    tool_execution_results := acc_exec_results a\<rparr>)
                 (asc ''tools_node'')))"

section \<open>The SQL execution stage: \<open>text2sql_node\<close>\<close>

definition text2sql_step :: "env \<Rightarrow> ustr \<Rightarrow> tools_acc \<Rightarrow> pydict \<Rightarrow> tools_acc" where
  "text2sql_step e q a text2sql_call =
     (let tool_args = dict_get_default text2sql_call key_args;
          original_query = (if truthy e tool_args then tool_args else JStr q)
      in case execute_text2sql e original_query of
           Inr res \<Rightarrow>
             (let line = text2sql @ lit_result @ res
              in a\<lparr>acc_results := acc_results a @ [line],
                   acc_exec_results := acc_exec_results a @ [line],
                   acc_tool_results := acc_tool_results a @
                     [\<lparr>tr_tool_name = JStr text2sql, tr_tool_args = tool_args,
                       tr_full_result = res, tr_status = Success\<rparr>]\<rparr>)
         | Inl ex \<Rightarrow>
             (let line = text2sql @ lit_error @ exc_str ex
              in a\<lparr>acc_results := acc_results a @ [line],
                   acc_exec_results := acc_exec_results a @ [line],
                   acc_status := ToolError\<rparr>))"

definition text2sql_loop :: "env \<Rightarrow> ustr \<Rightarrow> tools_acc \<Rightarrow> pydict list \<Rightarrow> tools_acc" where
  "text2sql_loop e q a calls = foldl (text2sql_step e q) a calls"

definition text2sql_node :: "env \<Rightarrow> state \<Rightarrow> state" where
  "text2sql_node e s0 =
     (let calls = tool_calls s0;
          msgs = messages s0;
          s = log_state_change e s0 (asc ''text2sql_node'');
          text2sql_calls = filter is_text2sql calls
      in if text2sql_calls = [] then s\<lparr>validation_status := Success\<rparr>
         else
           (let a = text2sql_loop e (query s)
                      \<lparr>acc_results = [],
                        acc_exec_results = tool_execution_results s,
                        acc_tool_results = tool_results s,
                        acc_status = Success\<rparr> text2sql_calls;
                tool_result = join [10, 10] (acc_results a)
            in log_state_change e
                 (s\<lparr>messages := msgs @ [AIMessage tool_result],
                    result := tool_result,
                    validation_status := acc_status a,
                    tool_results := acc_tool_results a,
                    tool_execution_results := acc_exec_results a\<rparr>)
                 (asc ''text2sql_node'')))"

section \<open>The clarifier: \<open>clarifier_node\<close>\<close>

text \<open>The clarification prompt: a fixed Korean text around the query.\<close>

definition clarification_head :: ustr where
  "clarification_head =
     [51656, 47928, 51012, 32, 45908, 32, 44396, 52404, 51201, 51004, 47196, 32, 54644, 51452,
      49464, 50836, 46, 32, 10, 10, 50896, 48376, 32, 51656, 47928, 58, 32]"

definition clarification_tail :: ustr where
  "clarification_tail =
     [10, 10, 45796, 51020, 44284, 32, 44057, 51008, 32, 51221, 48372, 44032, 32, 54596, 50836,
      54633, 45768, 45796, 58, 10, 45, 32, 51221, 54869, 54620, 32, 45216, 51676, 32, 40, 50696,
      58, 32, 50, 48, 50, 53, 45, 49, 49, 45, 48, 54, 41, 10, 45, 32, 44396, 52404, 51201, 51064,
      32, 51312, 44148, 32, 40, 50696, 58, 32, 82, 83, 73, 32, 55, 48, 32, 51060, 49345, 44, 32,
      44144, 47000, 47049, 32, 49, 48, 48, 47564, 51452, 32, 51060, 49345, 41, 10, 45, 32, 49884,
      51109, 32, 44396, 48516, 51060, 32, 54596, 50836, 54620, 32, 44221, 50864, 32, 75, 79, 83,
      80, 73, 32, 46608, 45716, 32, 75, 79, 83, 68, 65, 81, 32, 47749, 49884, 10, 10, 50696,
      49884, 58, 10, 45, 32, 34, 50, 48, 50, 53, 45, 49, 49, 45, 48, 54, 32, 82, 83, 73, 32, 55,
      48, 32, 51060, 49345, 32, 44284, 47588, 49688, 32, 51333, 47785, 51008, 63, 34, 10, 45, 32,
      34, 50, 48, 50, 53, 45, 49, 49, 45, 48, 54, 32, 75, 79, 83, 80, 73, 32, 49884, 51109, 50640,
      49436, 32, 44032, 44201, 51060, 32, 49, 47564, 50896, 32, 51060, 49345, 32, 53, 47564,
      50896, 32, 51060, 54616, 51064, 32, 51333, 47785, 51008, 63, 34, 10, 45, 32, 34, 50, 48, 50,
      53, 45, 48, 49, 45, 48, 49, 48512, 53552, 32, 50, 48, 50, 53, 45, 49, 50, 45, 51, 49, 44620,
      51648, 32, 44264, 46304, 53356, 47196, 49828, 32, 48156, 49373, 32, 51333, 47785, 51008, 63]"

definition clarification_prompt :: "ustr \<Rightarrow> ustr" where
  "clarification_prompt q = clarification_head @ q @ clarification_tail"

definition clarifier_node :: "state \<Rightarrow> state" where
  "clarifier_node s =
     s\<lparr>messages := messages s @ [AIMessage (clarification_prompt (query s))],
       result := clarification_prompt (query s),
       clarification_needed := True\<rparr>"

section \<open>The result filter: \<open>result_filter_node\<close>\<close>

text \<open>
  The line heuristics. The classes: \<open>W\<close>, a word character (\<open>\w\<close>) or a Hangul
  syllable (code points 44032 to 55203); \<open>[\w\d]\<close>; \<open>\d\<close>; and \<open>[\d,]\<close>. The
  patterns: \<open>W+\s*\([\w\d]+\)\<close>, \<open>^\d+\.\s*W\<close> and \<open>W+\s*\|\s*[\d,]+\<close>. The
  second starts with \<open>^\<close> and is searched without \<open>re.MULTILINE\<close>, so it matches at
  the head of the line only.
\<close>

definition cls_word_hangul :: "env \<Rightarrow> nat \<Rightarrow> bool" where
  "cls_word_hangul e c = (is_word e c \<or> (44032 \<le> c \<and> c \<le> 55203))"

definition cls_digit :: "env \<Rightarrow> nat \<Rightarrow> bool" where
  "cls_digit e c = (digit_val e c \<noteq> None)"

definition cls_word_digit :: "env \<Rightarrow> nat \<Rightarrow> bool" where
  "cls_word_digit e c = (is_word e c \<or> cls_digit e c)"

definition cls_digit_comma :: "env \<Rightarrow> nat \<Rightarrow> bool" where
  "cls_digit_comma e c = (cls_digit e c \<or> c = 44)"

definition plus :: "(nat \<Rightarrow> bool) \<Rightarrow> rx" where
  "plus P = Cat [Chr P, Star (Chr P)]"

definition stock_rx1 :: "env \<Rightarrow> rx" where
  "stock_rx1 e = Cat [plus (cls_word_hangul e), rx_ws, ch 40, plus (cls_word_digit e), ch 41]"

definition stock_rx2 :: "env \<Rightarrow> rx" where
  "stock_rx2 e = Cat [plus (cls_digit e), ch 46, rx_ws, Chr (cls_word_hangul e)]"

definition stock_rx3 :: "env \<Rightarrow> rx" where
  "stock_rx3 e = Cat [plus (cls_word_hangul e), rx_ws, ch 124, rx_ws, plus (cls_digit_comma e)]"

text \<open>The fourteen Hangul syllables of the fourth heuristic.\<close>

definition hangul_marks :: ustr where
  "hangul_marks =
     [44032, 45208, 45796, 46972, 47560, 48148, 49324, 50500, 51088, 52264, 52852, 53440,
      54028, 54616]"

definition stock_like :: "env \<Rightarrow> ustr \<Rightarrow> bool" where
  "stock_like e line =
     (rx_search (stock_rx1 e) line \<noteq> None
      \<or> rx_at (stock_rx2 e) line \<noteq> None
      \<or> rx_search (stock_rx3 e) line \<noteq> None
      \<or> (5 < length line \<and> length line < 100 \<and> (\<exists>c \<in> set line. c \<in> set hangul_marks)))"

text \<open>
  The three "all" keywords, and the pattern of an explicit count: \<open>(\d+)\<close> followed
  by the counter word (the syllable with code point 44060).
\<close>

definition all_keywords :: "ustr list" where
  "all_keywords = [[47784, 46160], [51204, 52404], [47784, 46304]]"

definition count_rx :: "env \<Rightarrow> rx" where
  "count_rx e = Cat [Group 1 (plus (cls_digit e)), ch 44060]"

text \<open>\<open>int\<close> on a string of decimal digits.\<close>

definition int_of_digits :: "env \<Rightarrow> ustr \<Rightarrow> nat" where
  "int_of_digits e ds =
     foldl (\<lambda>n d. 10 * n + (case digit_val e d of None \<Rightarrow> 0 | Some v \<Rightarrow> v)) 0 ds"

text \<open>
  The pair \<open>(should_limit, limit)\<close> the node computes from the query and the number of
  stock-like lines.
\<close>

definition display_limit :: "env \<Rightarrow> ustr \<Rightarrow> nat \<Rightarrow> bool \<times> nat" where
  "display_limit e q n =
     (if \<exists>keyword \<in> set all_keywords. contains keyword (py_lower e q) then (False, n)
      else (case rx_search (count_rx e) q of
              Some (rest, c) \<Rightarrow> (True, int_of_digits e (group c 1))
            | None \<Rightarrow> if 100 < n then (True, 100) else (False, n)))"

text \<open>The count-disclosure suffix around the number of stock-like lines.\<close>

definition suffix_head :: ustr where
  "suffix_head = [10, 10, 46, 46, 46, 32, 46321, 32, 52509, 32]"

definition suffix_tail :: ustr where
  "suffix_tail = [44060, 32, 51333, 47785, 51060, 32, 51080, 49845, 45768, 45796, 46]"

definition result_filter_node :: "env \<Rightarrow> state \<Rightarrow> state" where
  "result_filter_node e s0 =
     (let q = query s0;
          res = result s0;
          s = log_state_change e s0 (asc ''result_filter'');
          lines = filter (\<lambda>l. l \<noteq> []) (map strip (split_lines res));
          stock_like_lines = filter (stock_like e) lines;
          (should_limit, limit) = display_limit e q (length stock_like_lines)
      in if should_limit \<and> limit < length stock_like_lines then
           (let header_lines = filter (\<lambda>l. l \<notin> set stock_like_lines) lines;
                filtered_stocks = take limit stock_like_lines;
                filtered_result =
                  join [10] (header_lines @ filtered_stocks) @
                  (if limit < length stock_like_lines
                   then suffix_head @ dec_str (length stock_like_lines) @ suffix_tail
                   else [])
            in log_state_change e (s\<lparr>result := filtered_result\<rparr>) (asc ''result_filter''))
         else log_state_change e s (asc ''result_filter''))"

section \<open>The response synthesizer: \<open>generation_node\<close>\<close>

text \<open>The text the node hands to the model as the tool output.\<close>

definition generation_tool_result :: "state \<Rightarrow> ustr" where
  "generation_tool_result s =
     (if tool_execution_results s \<noteq> [] then join [10, 10] (tool_execution_results s)
      else result s)"

definition generation_seg1 :: ustr where
  "generation_seg1 =
     [49324, 50857, 51088, 32, 51656, 47928, 50640, 32, 45824, 54620, 32, 46020, 44396, 32,
      49892, 54665, 32, 44208, 44284, 47484, 32, 44536, 45824, 47196, 32, 51204, 45804, 54616,
      49464, 50836, 46, 10, 10, 49324, 50857, 51088, 32, 51656, 47928, 58, 32]"

definition generation_seg2 :: ustr where
  "generation_seg2 = [10, 10, 46020, 44396, 32, 49892, 54665, 32, 44208, 44284, 58, 10]"

definition generation_seg3 :: ustr where
  "generation_seg3 =
     [10, 10, 42, 42, 54596, 49688, 32, 44508, 52825, 42, 42, 58, 10, 45, 32, 46020, 44396, 32,
      44208, 44284, 47484, 32, 44536, 45824, 47196, 32, 48373, 49324, 54644, 49436, 32, 51204,
      45804, 10, 45, 32, 51208, 45824, 47196, 32, 51333, 47785, 32, 44060, 49688, 47484, 32,
      51460, 51060, 51648, 32, 47568, 32, 44163, 10, 45, 32, 34, 52509, 32, 51, 56, 44060, 32,
      51473, 32, 51, 48, 44060, 32, 54364, 49884, 34, 46972, 44256, 32, 45208, 50752, 51080,
      51004, 47732, 32, 8594, 32, 51, 48, 44060, 32, 47784, 46160, 32, 45208, 50676, 10, 45, 32,
      51076, 51032, 47196, 32, 53, 44060, 44, 32, 49, 48, 44060, 47196, 32, 51228, 54620, 54616,
      51648, 32, 47568, 32, 44163, 10, 45, 32, 45216, 51676, 32, 51221, 48372, 44032, 32, 51080,
      51004, 47732, 32, 54252, 54632, 10, 10, 45813, 48320, 32, 54805, 49885, 58, 10]"

definition generation_seg4 :: ustr where
  "generation_seg4 =
     [50640, 32, 45824, 54620, 32, 44208, 44284, 45716, 32, 45796, 51020, 44284, 32, 44057,
      49845, 45768, 45796, 58, 10, 10, 91, 46020, 44396, 32, 44208, 44284, 50640, 32, 45208,
      50728, 32, 47784, 46304, 32, 51333, 47785, 51012, 32, 44536, 45824, 47196, 32, 45208,
      50676, 93, 10, 10, 45813, 48320, 58]"

text \<open>The phrase ("show all") the prompt removes from the query.\<close>

definition lit_show_all :: ustr where
  "lit_show_all = [47784, 46160, 32, 48372, 50668, 51480]"

definition generation_prompt :: "ustr \<Rightarrow> ustr \<Rightarrow> ustr" where
  "generation_prompt q tool_result =
     generation_seg1 @ q @ generation_seg2 @ tool_result @ generation_seg3 @
     str_replace lit_show_all [] q @ generation_seg4"

definition generation_node :: "env \<Rightarrow> state \<Rightarrow> pyexc + state" where
  "generation_node e s =
     (case llm_main e (generation_prompt (query s) (generation_tool_result s)) of
        Inl ex \<Rightarrow> Inl ex
      | Inr final_answer \<Rightarrow>
          Inr (s\<lparr>messages := messages s @ [AIMessage final_answer],
                 result := final_answer\<rparr>))"

section \<open>The graph\<close>

datatype node =
    Agent | Parse | Tools | Text2sql | FilterDecision | ResultFilter | Clarifier | Generation

definition has_text2sql :: "state \<Rightarrow> bool" where
  "has_text2sql s = (\<exists>call \<in> set (tool_calls s). is_text2sql call)"

definition has_regular_tools :: "state \<Rightarrow> bool" where
  "has_regular_tools s = (\<exists>call \<in> set (tool_calls s). \<not> is_text2sql call)"

definition should_continue :: "state \<Rightarrow> node" where
  "should_continue s =
     (if tool_calls s = [] then Generation
      else if has_text2sql s \<and> has_regular_tools s then Tools
      else if has_text2sql s then Text2sql
      else if has_regular_tools s then Tools
      else Generation)"

definition after_tools_routing :: "state \<Rightarrow> node" where
  "after_tools_routing s =
     (if validation_status s = ParamMissing \<and> retry_count s < 2 then Clarifier
      else if has_text2sql s then Text2sql
      else FilterDecision)"

definition after_text2sql_routing :: "state \<Rightarrow> node" where
  "after_text2sql_routing s =
     (if validation_status s = ParamMissing \<and> retry_count s < 2 then Clarifier
      else FilterDecision)"

text \<open>
  \<open>TOOLS_NEED_FILTERING\<close>, and the test
  \<open>any(call.get("name") in self.TOOLS_NEED_FILTERING for call in tool_calls)\<close>: the
  names are looked up in a set one after the other, up to the first that is found.
\<close>

definition tools_need_filtering :: "ustr list" where
  "tools_need_filtering =
     [asc ''search_price_change'', asc ''search_volume'', asc ''search_price'',
      asc ''search_compound'', asc ''get_rsi_signals'', asc ''get_ma_breakout'',
      asc ''get_volume_surge'', asc ''get_cross_signals'', asc ''text2sql'']"

fun needs_filtering :: "pydict list \<Rightarrow> pyexc + bool" where
  "needs_filtering [] = Inr False"
| "needs_filtering (call # calls) =
     (let n = dict_get call key_name
      in if \<not> hashable n then Inl (unhashable n)
         else if (case n of JStr w \<Rightarrow> w \<in> set tools_need_filtering | _ \<Rightarrow> False) then Inr True
         else needs_filtering calls)"

definition should_filter_results :: "state \<Rightarrow> pyexc + node" where
  "should_filter_results s =
     (case needs_filtering (tool_calls s) of
        Inl ex \<Rightarrow> Inl ex
      | Inr b \<Rightarrow> Inr (if b then ResultFilter else Generation))"

text \<open>What each node does to the state; \<open>filter_decision\<close> is the identity.\<close>

fun node_fn :: "env \<Rightarrow> node \<Rightarrow> state \<Rightarrow> pyexc + state" where
  "node_fn e Agent s = agent_node e s"
| "node_fn e Parse s = parse_node e s"
| "node_fn e Tools s = Inr (tools_node e s)"
| "node_fn e Text2sql s = Inr (text2sql_node e s)"
| "node_fn e FilterDecision s = Inr s"
| "node_fn e ResultFilter s = Inr (result_filter_node e s)"
| "node_fn e Clarifier s = Inr (clarifier_node s)"
| "node_fn e Generation s = generation_node e s"

text \<open>
  The edges, plain and conditional: the node that follows, \<open>None\<close> for \<open>END\<close>, from
  the state the node has returned.
\<close>

fun route :: "node \<Rightarrow> state \<Rightarrow> pyexc + node option" where
  "route Agent s = Inr (Some Parse)"
| "route Parse s = Inr (Some (should_continue s))"
| "route Tools s = Inr (Some (after_tools_routing s))"
| "route Text2sql s = Inr (Some (after_text2sql_routing s))"
| "route FilterDecision s =
     (case should_filter_results s of Inl ex \<Rightarrow> Inl ex | Inr n \<Rightarrow> Inr (Some n))"
| "route ResultFilter s = Inr (Some Generation)"
| "route Clarifier s = Inr None"
| "route Generation s = Inr None"

text \<open>The position of a node in the graph: every edge leads to a lower one.\<close>

fun node_rank :: "node \<Rightarrow> nat" where
  "node_rank Agent = 7"
| "node_rank Parse = 6"
| "node_rank Tools = 5"
| "node_rank Text2sql = 4"
| "node_rank FilterDecision = 3"
| "node_rank ResultFilter = 2"
| "node_rank Clarifier = 1"
| "node_rank Generation = 1"

text \<open>
  \<open>graph.invoke\<close> from a node: the nodes entered, in order, and either the final state
  or the exception that ended the run.
\<close>

function run_graph :: "env \<Rightarrow> node \<Rightarrow> state \<Rightarrow> node list \<times> (pyexc + state)" where
  "run_graph e n s =
     (case node_fn e n s of
        Inl ex \<Rightarrow> ([n], Inl ex)
      | Inr s' \<Rightarrow>
          (case route n s' of
             Inl ex \<Rightarrow> ([n], Inl ex)
           | Inr None \<Rightarrow> ([n], Inr s')
           | Inr (Some n') \<Rightarrow> (case run_graph e n' s' of (tr, r) \<Rightarrow> (n # tr, r))))"
  by pat_completeness auto
termination
proof (relation "measure (\<lambda>(e, n, s). node_rank n)", goal_cases)
  case 1
  show ?case by simp
next
  case (2 e n s s' x n')
  then show ?case
    by (cases n)
       (auto simp: should_continue_def after_tools_routing_def after_text2sql_routing_def
          should_filter_results_def split: if_splits sum.splits)
qed

section \<open>The public entry point: \<open>search\<close>\<close>

text \<open>The state \<open>search\<close> seeds the graph with.\<close>

definition initial_state :: "ustr \<Rightarrow> state" where
  "initial_state q =
     \<lparr>messages = [], query = q, result = [], tool_calls = [], iterations = 0,
      validation_status = Pending, clarification_needed = False, retry_count = 0,
      tool_results = [], node_traces = [], current_tool_index = 0, pending_tools = [],
      completed_tools = [], tool_execution_results = []\<rparr>"

text \<open>The head ("error during search:") of the answer made of a caught exception.\<close>

definition lit_search_error :: ustr where
  "lit_search_error = [44160, 49353, 32, 51473, 32, 50724, 47448, 32, 48156, 49373, 58, 32]"

record final_state_info =
  fs_iterations :: int
  fs_validation_status :: vstatus
  fs_clarification_needed :: bool
  fs_retry_count :: int
  fs_tool_calls_count :: nat

datatype search_output =
    Plain ustr
  | Detailed ustr "tool_result_detail list" "node_trace list" final_state_info
  | DetailedError ustr ustr

definition search :: "env \<Rightarrow> ustr \<Rightarrow> bool \<Rightarrow> search_output" where
  "search e q return_detailed_info =
     (case snd (run_graph e Agent (initial_state q)) of
        Inr r \<Rightarrow>
          (let final_result = result r
           in if return_detailed_info \<and> enable_detailed_logging e
              then Detailed final_result (tool_results r) (node_traces r)
                     \<lparr>fs_iterations = iterations r,
                      fs_validation_status = validation_status r,
                      fs_clarification_needed = clarification_needed r,
                      fs_retry_count = retry_count r,
                      fs_tool_calls_count = length (tool_calls r)\<rparr>
              else Plain final_result)
      | Inl ex \<Rightarrow>
          (let error_msg = lit_search_error @ exc_str ex
           in if return_detailed_info \<and> enable_detailed_logging e
              then DetailedError error_msg (exc_str ex)
              else Plain error_msg))"

section \<open>The parameter extractor: \<open>_extract_parameters\<close>\<close>

text \<open>The prompt: fixed Korean text around the query, the schema and the rules.\<close>

definition extract_seg1 :: ustr where
  "extract_seg1 =
     [45796, 51020, 32, 51656, 47928, 50640, 49436, 32, 54596, 50836, 54620, 32, 54028, 46972,
      48120, 53552, 47484, 32, 52628, 52636, 54616, 49464, 50836, 58, 10, 51452, 51032, 58, 32,
      54617, 49845, 46108, 32, 45216, 51676, 32, 51060, 54980, 51032, 32, 54028, 46972, 48120,
      53552, 47484, 32, 52628, 52636, 54644, 50556, 32, 54624, 32, 49688, 46020, 32, 51080,
      49845, 45768, 45796, 46, 10, 10, 51656, 47928, 58, 32]"

definition extract_seg2 :: ustr where
  "extract_seg2 = [10, 10, 74, 83, 79, 78, 51004, 47196, 47564, 32, 51025, 45813, 58, 32]"

definition extract_seg3 :: ustr where
  "extract_seg3 =
     [10, 10, 48152, 46300, 49884, 32, 74, 83, 79, 78, 32, 54805, 49885, 51004, 47196, 47564,
      32, 51025, 45813, 54616, 44256, 32, 45796, 47480, 32, 49444, 47749, 51008, 32, 54616,
      51648, 32, 47560, 49464, 50836, 46]"

definition extract_prompt :: "ustr \<Rightarrow> ustr \<Rightarrow> ustr \<Rightarrow> ustr" where
  "extract_prompt q schema rules =
     extract_seg1 @ q @ extract_seg2 @ schema @ [10, 10] @ rules @ extract_seg3"

text \<open>\<open>\{[^{}]*(?:\{[^{}]*\}[^{}]*)*\}\<close>.\<close>

definition extract_rx :: rx where
  "extract_rx = Cat [ch 123, rx_nobrace, rx_nested, ch 125]"

text \<open>
  The body of the function is one \<open>try\<close> whose handler returns the empty \<open>dict\<close>:
  every exception (of the model call, of either \<open>json.loads\<close>) ends there.
\<close>

definition extract_parameters :: "env \<Rightarrow> ustr \<Rightarrow> ustr \<Rightarrow> ustr \<Rightarrow> json" where
  "extract_parameters e q schema rules =
     (case llm_simple e (extract_prompt q schema rules) of
        Inl ex \<Rightarrow> JObj []
      | Inr reply \<Rightarrow>
          (let content = strip reply
           in case rx_search extract_rx content of
                Some (rest, c) \<Rightarrow>
                  (case json_loads (group c 0) of None \<Rightarrow> JObj [] | Some v \<Rightarrow> v)
              | None \<Rightarrow>
                  (case json_loads content of None \<Rightarrow> JObj [] | Some v \<Rightarrow> v)))"

section \<open>Notions used in the statements\<close>

text \<open>
  The accumulator a loop starts from when one call is run on its own: running
  \<open>tools_step e empty_acc c\<close> is executing the call \<open>c\<close> alone.
\<close>

definition empty_acc :: tools_acc where
  "empty_acc = \<lparr>acc_results = [], acc_exec_results = [], acc_tool_results = [], acc_status = Success\<rparr>"

text \<open>
  An example environment, used to run the model on concrete inputs. Its registry is the
  one \<open>_create_tools\<close> builds from four handlers: one that answers, one that raises,
  one more that answers, and one whose answer carries a missing-parameter marker. Its
  model answers the agent's prompt with \<open>reply\<close> and any other prompt with a fixed
  text. The Unicode tables are the ASCII ones, which is what Python's are on the ASCII and
  Hangul text of the examples; the printing functions are not reached by them.
\<close>

definition fixture_handlers :: "(ustr \<times> (json \<Rightarrow> pyexc + ustr)) list" where
  "fixture_handlers =
     [(asc ''get_stock_price'', \<lambda>a. Inr (asc ''70000'')),
      (asc ''get_market_index'', \<lambda>a. Inl (Failure (asc ''database is locked''))),
      (asc ''search_company'', \<lambda>a. Inr (asc ''NAVER'')),
      (asc ''search_price'', \<lambda>a. Inr (error_keywords ! 1))]"

definition fixture_tools :: "(ustr \<times> (json \<Rightarrow> pyexc + ustr)) list" where
  "fixture_tools = create_tools fixture_handlers"

definition fixture_env :: "ustr \<Rightarrow> env" where
  "fixture_env reply =
     \<lparr>llm_main = (\<lambda>p. if startswith (asc ''PROMPT '') p then Inr reply else Inr (asc ''ANSWER'')),
      llm_simple = (\<lambda>p. Inr reply),
      tools = fixture_tools,
      execute_text2sql = (\<lambda>q. Inr (asc ''3 rows'')),
      agent_prompt = (\<lambda>q. asc ''PROMPT '' @ q),
      enable_detailed_logging = False,
      py_str = (\<lambda>v. asc ''?''),
      float_truth = (\<lambda>x. True),
      float_eq = (\<lambda>x v. False),
      json_dumps = (\<lambda>d. asc ''{}''),
      is_word = (\<lambda>c. (48 \<le> c \<and> c \<le> 57) \<or> (65 \<le> c \<and> c \<le> 90) \<or> c = 95 \<or> (97 \<le> c \<and> c \<le> 122)),
      digit_val = (\<lambda>c. if 48 \<le> c \<and> c \<le> 57 then Some (c - 48) else None),
      py_lower = map (\<lambda>c. if 65 \<le> c \<and> c \<le> 90 then c + 32 else c)\<rparr>"

definition mk_call :: "string \<Rightarrow> string \<Rightarrow> pydict" where
  "mk_call n a = [(key_name, JStr (asc n)), (key_args, JStr (asc a))]"

definition three_calls :: "pydict list" where
  "three_calls = [mk_call ''get_stock_price'' ''a'', mk_call ''get_market_index'' ''b'',
                  mk_call ''search_company'' ''c'']"

definition two_calls :: "pydict list" where
  "two_calls = [mk_call ''search_price'' ''a'', mk_call ''get_stock_price'' ''b'']"


text \<open>
  Three replies of the model: one with a structured call and an SQL call, one with a
  structured call whose tool reports a missing parameter, and one with that call and an
  SQL call.
\<close>

definition reply_both :: ustr where
  "reply_both =
     asc ''TOOL_CALL: {\"name\":\"get_stock_price\",\"args\":\"a\"} TOOL_CALL: {\"name\":\"text2sql\",\"args\":\"b\"}''"

definition reply_missing :: ustr where
  "reply_missing = asc ''TOOL_CALL: {\"name\":\"search_price\",\"args\":\"a\"}''"

definition reply_missing_both :: ustr where
  "reply_missing_both =
     asc ''TOOL_CALL: {\"name\":\"search_price\",\"args\":\"a\"} TOOL_CALL: {\"name\":\"text2sql\",\"args\":\"b\"}''"

text \<open>
  A call with structured arguments (a stock name and a date under the two Korean keys),
  bare and behind the \<open>TOOL_CALL:\<close> label, and a call whose \<open>args\<close> is a number.
\<close>

definition stock_samsung :: ustr where
  "stock_samsung = [49340, 49457, 51204, 51088]"

definition object_call :: ustr where
  "object_call =
     asc ''{\"name\": \"get_stock_price\", \"args\": {\"'' @ key_stock_name @ asc ''\": \"'' @
     stock_samsung @ asc ''\", \"'' @ key_date @ asc ''\": \"2024-11-06\"}}''"

definition reply_object_args :: ustr where
  "reply_object_args = asc ''TOOL_CALL: '' @ object_call"

definition reply_number_args :: ustr where
  "reply_number_args = asc ''{\"name\": \"x\", \"args\": 5}''"

definition well_keyed :: "pydict \<Rightarrow> bool" where
  "well_keyed c = (has_key c key_name \<and> has_key c key_args)"

text \<open>
  The parameter extractor as the specification words it, to be compared with
  \<open>extract_parameters\<close>: decode the first brace span of the trimmed reply; if that fails,
  because there is no span or because the span does not decode, decode the entire trimmed
  reply; if both fail, the empty mapping.
\<close>

definition extract_parameters_spec :: "env \<Rightarrow> ustr \<Rightarrow> ustr \<Rightarrow> ustr \<Rightarrow> json" where
  "extract_parameters_spec e q schema rules =
     (case llm_simple e (extract_prompt q schema rules) of
        Inl ex \<Rightarrow> JObj []
      | Inr reply \<Rightarrow>
          (let content = strip reply;
               first_attempt = (case rx_search extract_rx content of
                                  Some (rest, c) \<Rightarrow> json_loads (group c 0)
                                | None \<Rightarrow> None)
           in case first_attempt of
                Some v \<Rightarrow> v
              | None \<Rightarrow> (case json_loads content of Some v \<Rightarrow> v | None \<Rightarrow> JObj [])))"

text \<open>
  Two replies to the extractor's prompt: an object whose string value holds a closing
  brace, and an object after a word.
\<close>

definition reply_brace_in_string :: ustr where
  "reply_brace_in_string = asc ''{\"a\": \"}\"}''"

definition reply_after_word :: ustr where
  "reply_after_word = asc ''ok {\"n\": 5}''"

section \<open>Properties\<close>

subsection \<open>Auxiliary facts: the stages and the state\<close>

lemma log_state_change_fields [simp]:
  "retry_count (log_state_change e s n) = retry_count s"
  "validation_status (log_state_change e s n) = validation_status s"
  "tool_calls (log_state_change e s n) = tool_calls s"
  "tool_execution_results (log_state_change e s n) = tool_execution_results s"
  "tool_results (log_state_change e s n) = tool_results s"
  "messages (log_state_change e s n) = messages s"
  "query (log_state_change e s n) = query s"
  "result (log_state_change e s n) = result s"
  "clarification_needed (log_state_change e s n) = clarification_needed s"
  "iterations (log_state_change e s n) = iterations s"
  by (simp_all add: log_state_change_def)

lemma tools_node_fields [simp]:
  "retry_count (tools_node e s) = retry_count s"
  "tool_calls (tools_node e s) = tool_calls s"
  "query (tools_node e s) = query s"
  "clarification_needed (tools_node e s) = clarification_needed s"
  by (simp_all add: tools_node_def Let_def)

lemma text2sql_node_fields [simp]:
  "retry_count (text2sql_node e s) = retry_count s"
  "tool_calls (text2sql_node e s) = tool_calls s"
  "query (text2sql_node e s) = query s"
  "clarification_needed (text2sql_node e s) = clarification_needed s"
  by (simp_all add: text2sql_node_def Let_def)

lemma result_filter_node_fields [simp]:
  "retry_count (result_filter_node e s) = retry_count s"
  "tool_calls (result_filter_node e s) = tool_calls s"
  "query (result_filter_node e s) = query s"
  "clarification_needed (result_filter_node e s) = clarification_needed s"
  "tool_execution_results (result_filter_node e s) = tool_execution_results s"
  "validation_status (result_filter_node e s) = validation_status s"
  by (simp_all add: result_filter_node_def Let_def split: prod.splits)

lemma agent_node_fields:
  assumes "agent_node e s = Inr s'"
  shows "query s' = query s" and "clarification_needed s' = clarification_needed s"
    and "retry_count s' = retry_count s"
  using assms by (auto simp: agent_node_def Let_def split: sum.splits)

lemma parse_node_fields:
  assumes "parse_node e s = Inr s'"
  shows "query s' = query s" and "clarification_needed s' = clarification_needed s"
    and "retry_count s' = retry_count s" and "tool_execution_results s' = []"
    and "parse_tool_calls e (last_ai_content (rev (messages s))) = Inr (tool_calls s')"
  using assms by (auto simp: parse_node_def Let_def split: sum.splits)

lemma generation_node_fields:
  assumes "generation_node e s = Inr s'"
  shows "query s' = query s" and "clarification_needed s' = clarification_needed s"
    and "tool_execution_results s' = tool_execution_results s"
    and "llm_main e (generation_prompt (query s) (generation_tool_result s)) = Inr (result s')"
  using assms by (auto simp: generation_node_def split: sum.splits)

subsection \<open>Auxiliary facts: the two execution loops\<close>

lemma tools_step_results:
  "\<exists>line. acc_results (tools_step e a c) = acc_results a @ [line]
        \<and> acc_exec_results (tools_step e a c) = acc_exec_results a @ [line]
        \<and> acc_results (tools_step e empty_acc c) = [line]"
  by (auto simp: tools_step_def Let_def empty_acc_def split: option.splits sum.splits)

lemma tools_loop_results:
  "acc_results (tools_loop e a calls) =
     acc_results a @ concat (map (\<lambda>c. acc_results (tools_step e empty_acc c)) calls)
   \<and> acc_exec_results (tools_loop e a calls) =
     acc_exec_results a @ concat (map (\<lambda>c. acc_results (tools_step e empty_acc c)) calls)"
  unfolding tools_loop_def
proof (induction calls arbitrary: a)
  case Nil
  then show ?case by simp
next
  case (Cons c calls)
  obtain line where l: "acc_results (tools_step e a c) = acc_results a @ [line]"
    "acc_exec_results (tools_step e a c) = acc_exec_results a @ [line]"
    "acc_results (tools_step e empty_acc c) = [line]"
    using tools_step_results by blast
  show ?case using Cons.IH [of "tools_step e a c"] l by simp
qed

lemma tools_step_status:
  "acc_status (tools_step e a c) =
     (if acc_status (tools_step e empty_acc c) = Success then acc_status a
      else acc_status (tools_step e empty_acc c))"
  by (simp add: tools_step_def Let_def empty_acc_def split: option.splits sum.splits)

lemma tools_loop_status:
  "acc_status (tools_loop e a calls) =
     (let failures = filter (\<lambda>st. st \<noteq> Success)
                       (map (\<lambda>c. acc_status (tools_step e empty_acc c)) calls)
      in if failures = [] then acc_status a else last failures)"
proof (induction calls rule: rev_induct)
  case Nil
  then show ?case by (simp add: tools_loop_def)
next
  case (snoc c calls)
  have step: "tools_loop e a (calls @ [c]) = tools_step e (tools_loop e a calls) c"
    by (simp add: tools_loop_def)
  show ?case
    using snoc.IH
    by (simp add: step tools_step_status [of e "tools_loop e a calls"] Let_def)
qed

lemma tools_node_exec_results:
  "tool_execution_results (tools_node e s) =
     tool_execution_results s @
     concat (map (\<lambda>c. acc_results (tools_step e empty_acc c))
                 (filter (\<lambda>c. \<not> is_text2sql c) (tool_calls s)))"
  using tools_loop_results [of e _ "filter (\<lambda>c. \<not> is_text2sql c) (tool_calls s)"]
  by (simp add: tools_node_def Let_def)

lemma text2sql_step_results:
  "\<exists>line. acc_results (text2sql_step e q a c) = acc_results a @ [line]
        \<and> acc_exec_results (text2sql_step e q a c) = acc_exec_results a @ [line]
        \<and> acc_results (text2sql_step e q empty_acc c) = [line]"
  by (auto simp: text2sql_step_def Let_def empty_acc_def split: sum.splits)

lemma text2sql_loop_results:
  "acc_exec_results (text2sql_loop e q a calls) =
     acc_exec_results a @ concat (map (\<lambda>c. acc_results (text2sql_step e q empty_acc c)) calls)"
  unfolding text2sql_loop_def
proof (induction calls arbitrary: a)
  case Nil
  then show ?case by simp
next
  case (Cons c calls)
  obtain line where l: "acc_results (text2sql_step e q a c) = acc_results a @ [line]"
    "acc_exec_results (text2sql_step e q a c) = acc_exec_results a @ [line]"
    "acc_results (text2sql_step e q empty_acc c) = [line]"
    using text2sql_step_results by blast
  show ?case using Cons.IH [of "text2sql_step e q a c"] l by simp
qed

lemma text2sql_node_exec_results:
  "tool_execution_results (text2sql_node e s) =
     tool_execution_results s @
     concat (map (\<lambda>c. acc_results (text2sql_step e (query s) empty_acc c))
                 (filter is_text2sql (tool_calls s)))"
  using text2sql_loop_results [of e "query s" _ "filter is_text2sql (tool_calls s)"]
  by (simp add: text2sql_node_def Let_def)

lemma text2sql_loop_status:
  "acc_status a \<in> {Success, ToolError} \<Longrightarrow>
   acc_status (text2sql_loop e q a calls) \<in> {Success, ToolError}"
  unfolding text2sql_loop_def
proof (induction calls arbitrary: a)
  case Nil
  then show ?case by simp
next
  case (Cons c calls)
  have "acc_status (text2sql_step e q a c) \<in> {Success, ToolError}"
    using Cons.prems by (auto simp: text2sql_step_def Let_def split: sum.splits)
  then show ?case using Cons.IH by simp
qed

lemma text2sql_node_status:
  "validation_status (text2sql_node e s) \<in> {Success, ToolError}"
  using text2sql_loop_status [of _ e "query s" "filter is_text2sql (tool_calls s)"]
  by (simp add: text2sql_node_def Let_def)

lemma after_text2sql_node:
  "after_text2sql_routing (text2sql_node e s) = FilterDecision"
  using text2sql_node_status [of e s] by (auto simp: after_text2sql_routing_def)

subsection \<open>Auxiliary facts: runs of the graph\<close>

declare run_graph.simps [simp del]

lemma run_Generation:
  "run_graph e Generation s = ([Generation], generation_node e s)"
  by (subst run_graph.simps) (simp split: sum.splits)

lemma run_Clarifier:
  "run_graph e Clarifier s = ([Clarifier], Inr (clarifier_node s))"
  by (subst run_graph.simps) simp

lemma run_ResultFilter:
  "run_graph e ResultFilter s =
     ([ResultFilter, Generation], generation_node e (result_filter_node e s))"
  by (subst run_graph.simps) (simp add: run_Generation)

lemma run_FilterDecision:
  "run_graph e FilterDecision s =
     (case needs_filtering (tool_calls s) of
        Inl ex \<Rightarrow> ([FilterDecision], Inl ex)
      | Inr b \<Rightarrow>
          if b then ([FilterDecision, ResultFilter, Generation],
                     generation_node e (result_filter_node e s))
          else ([FilterDecision, Generation], generation_node e s))"
  by (subst run_graph.simps)
     (simp add: run_Generation run_ResultFilter should_filter_results_def split: sum.splits)

lemma run_Text2sql:
  "run_graph e Text2sql s =
     (Text2sql # fst (run_graph e FilterDecision (text2sql_node e s)),
      snd (run_graph e FilterDecision (text2sql_node e s)))"
  by (subst run_graph.simps) (simp add: after_text2sql_node split: prod.splits)

lemma run_Tools:
  "run_graph e Tools s =
     (let s' = tools_node e s
      in if validation_status s' = ParamMissing \<and> retry_count s' < 2
         then ([Tools, Clarifier], Inr (clarifier_node s'))
         else if has_text2sql s'
         then (Tools # fst (run_graph e Text2sql s'), snd (run_graph e Text2sql s'))
         else (Tools # fst (run_graph e FilterDecision s'), snd (run_graph e FilterDecision s')))"
  by (subst run_graph.simps)
     (simp add: after_tools_routing_def run_Clarifier Let_def split: prod.splits)

lemma run_Parse:
  "run_graph e Parse s =
     (case parse_node e s of
        Inl ex \<Rightarrow> ([Parse], Inl ex)
      | Inr s' \<Rightarrow>
          (Parse # fst (run_graph e (should_continue s') s'),
           snd (run_graph e (should_continue s') s')))"
  by (subst run_graph.simps) (simp split: sum.splits prod.splits)

lemma run_Agent:
  "run_graph e Agent s =
     (case agent_node e s of
        Inl ex \<Rightarrow> ([Agent], Inl ex)
      | Inr s' \<Rightarrow> (Agent # fst (run_graph e Parse s'), snd (run_graph e Parse s')))"
  by (subst run_graph.simps) (simp split: sum.splits prod.splits)

subsection \<open>Auxiliary facts: evaluating the patterns and the decoder\<close>

lemma rx_m_star_chr: "rx_m (Star (Chr P)) s c k = star_chr P s c k"
  by (induction s) simp_all

lemma rx_m_star_cat:
  "rx_m (Star (Cat rs)) s c k =
     (case rx_m (Cat rs) s c
             (\<lambda>s' c'. if length s' < length s then rx_m (Star (Cat rs)) s' c' k else None) of
        Some x \<Rightarrow> Some x
      | None \<Rightarrow> k s c)"
  by simp

declare rx_m.simps(6) [simp del]

declare rx_findall.simps [simp del]

lemmas rx_defs = asc_def rx_ws_def rx_nobrace_def rx_nested_def rx_noclose_def rx_notick_def ch_def
  notin_def startswith_def is_space_def quoted_def fence_def

text \<open>No pattern matches the empty input, and each can only start at its first character.\<close>

lemma rx_at_Nil:
  "rx_at pattern1 [] = None" "rx_at pattern2 [] = None" "rx_at pattern3 [] = None"
  "rx_at pattern4 [] = None" "rx_at pattern5 [] = None" "rx_at extract_rx [] = None"
  by (simp_all add: rx_at_def pattern1_def pattern2_def pattern3_def pattern4_def pattern5_def
      extract_rx_def rx_defs)

lemma rx_at_skip:
  "x \<noteq> 84 \<Longrightarrow> rx_at pattern1 (x # xs) = None"
  "x \<noteq> 96 \<Longrightarrow> x \<noteq> 8594 \<Longrightarrow> rx_at pattern2 (x # xs) = None"
  "x \<noteq> 123 \<Longrightarrow> rx_at pattern3 (x # xs) = None"
  "x \<noteq> 123 \<Longrightarrow> rx_at pattern4 (x # xs) = None"
  "x \<noteq> 84 \<Longrightarrow> rx_at pattern5 (x # xs) = None"
  "x \<noteq> 123 \<Longrightarrow> rx_at extract_rx (x # xs) = None"
  by (simp_all add: rx_at_def pattern1_def pattern2_def pattern3_def pattern4_def pattern5_def
      extract_rx_def rx_defs)

lemma rx_at_try:
  "rx_at pattern1 (84 # xs) =
     rx_m (Group 0 pattern1) (84 # xs) (\<lambda>_. None) (\<lambda>s' c'. Some (s', c'))"
  "rx_at pattern2 (96 # xs) =
     rx_m (Group 0 pattern2) (96 # xs) (\<lambda>_. None) (\<lambda>s' c'. Some (s', c'))"
  "rx_at pattern2 (8594 # xs) =
     rx_m (Group 0 pattern2) (8594 # xs) (\<lambda>_. None) (\<lambda>s' c'. Some (s', c'))"
  "rx_at pattern3 (123 # xs) =
     rx_m (Group 0 pattern3) (123 # xs) (\<lambda>_. None) (\<lambda>s' c'. Some (s', c'))"
  "rx_at pattern4 (123 # xs) =
     rx_m (Group 0 pattern4) (123 # xs) (\<lambda>_. None) (\<lambda>s' c'. Some (s', c'))"
  "rx_at pattern5 (84 # xs) =
     rx_m (Group 0 pattern5) (84 # xs) (\<lambda>_. None) (\<lambda>s' c'. Some (s', c'))"
  "rx_at extract_rx (123 # xs) =
     rx_m (Group 0 extract_rx) (123 # xs) (\<lambda>_. None) (\<lambda>s' c'. Some (s', c'))"
  by (simp_all add: rx_at_def)

lemmas rx_unfold =
  arg_cong [OF pattern1_def, where f = rx_m] arg_cong [OF pattern2_def, where f = rx_m]
  arg_cong [OF pattern3_def, where f = rx_m] arg_cong [OF pattern4_def, where f = rx_m]
  arg_cong [OF pattern5_def, where f = rx_m] arg_cong [OF extract_rx_def, where f = rx_m]

lemmas rx_eval = findall1_def findall4_def rx_findall.simps rx_at_Nil rx_at_skip rx_at_try
  rx_unfold rx_defs group_def rx_m_star_chr rx_m_star_cat

lemmas json_eval = json_loads_def skip_ws_def is_json_ws_def strip_def cons_result_def
  scan_number_def is_digit_def digits_val_def hexval_def hex4_def escape_char_def Let_def

lemmas parser_eval = parse_tool_calls_def has_key_def key_name_def key_args_def key_action_def
  text2sql_def is_directive_def sql_call_def flatten_args_def dict_get_def hashable_def
  unhashable_def not_a_dict_def key_stock_name_def key_date_def py_eq_def num_of_def

lemmas tools_eval = Let_def initial_state_def mk_call_def is_text2sql_def dict_get_def
  dict_get_default_def key_name_def key_args_def text2sql_def asc_def tools_step_def empty_acc_def
  find_tool_def fixture_env_def fixture_tools_def fmt_def error_keywords_def startswith_def
  fixture_handlers_def create_tools_def parse_and_execute_def

text \<open>What the parser makes of the two example replies, whatever the environment.\<close>

lemma parse_reply_both:
  "parse_tool_calls e reply_both =
     Inr [mk_call ''get_stock_price'' ''a'', mk_call ''text2sql'' ''b'']"
  by (simp add: reply_both_def mk_call_def rx_eval json_eval parser_eval)

lemma parse_reply_missing:
  "parse_tool_calls e reply_missing = Inr [mk_call ''search_price'' ''a'']"
  by (simp add: reply_missing_def mk_call_def rx_eval json_eval parser_eval)

lemma parse_reply_missing_both:
  "parse_tool_calls e reply_missing_both =
     Inr [mk_call ''search_price'' ''a'', mk_call ''text2sql'' ''b'']"
  by (simp add: reply_missing_both_def mk_call_def rx_eval json_eval parser_eval)

subsection \<open>Auxiliary facts: the shape of a run\<close>

lemma should_continue_cases:
  "should_continue s = Tools \<or> should_continue s = Text2sql \<or> should_continue s = Generation"
  by (simp add: should_continue_def)

lemma trace_FilterDecision:
  "fst (run_graph e FilterDecision s) = [FilterDecision]
   \<or> fst (run_graph e FilterDecision s) = [FilterDecision, ResultFilter, Generation]
   \<or> fst (run_graph e FilterDecision s) = [FilterDecision, Generation]"
  by (simp add: run_FilterDecision split: sum.splits)

lemma trace_Text2sql:
  "fst (run_graph e Text2sql s) = [Text2sql, FilterDecision]
   \<or> fst (run_graph e Text2sql s) = [Text2sql, FilterDecision, ResultFilter, Generation]
   \<or> fst (run_graph e Text2sql s) = [Text2sql, FilterDecision, Generation]"
  using trace_FilterDecision [of e "text2sql_node e s"] by (auto simp: run_Text2sql)

lemma trace_Tools:
  "fst (run_graph e Tools s) = [Tools, Clarifier]
   \<or> fst (run_graph e Tools s) = Tools # fst (run_graph e Text2sql (tools_node e s))
   \<or> fst (run_graph e Tools s) = Tools # fst (run_graph e FilterDecision (tools_node e s))"
  by (simp add: run_Tools Let_def)

lemma clarifier_only_after_tools:
  assumes "Clarifier \<in> set (fst (run_graph e Agent s))"
  shows "fst (run_graph e Agent s) = [Agent, Parse, Tools, Clarifier]"
proof (cases "agent_node e s")
  case (Inl ex)
  then show ?thesis using assms by (simp add: run_Agent)
next
  case (Inr s1)
  show ?thesis
  proof (cases "parse_node e s1")
    case (Inl ex)
    then show ?thesis using assms Inr by (simp add: run_Agent run_Parse)
  next
    case s2: (Inr s2)
    have tr: "fst (run_graph e Agent s) = Agent # Parse # fst (run_graph e (should_continue s2) s2)"
      using Inr s2 by (simp add: run_Agent run_Parse)
    from should_continue_cases [of s2] show ?thesis
    proof (elim disjE)
      assume c: "should_continue s2 = Tools"
      from trace_Tools [of e s2] show ?thesis
      proof (elim disjE)
        assume "fst (run_graph e Tools s2) = [Tools, Clarifier]"
        then show ?thesis using tr c by simp
      next
        assume "fst (run_graph e Tools s2) = Tools # fst (run_graph e Text2sql (tools_node e s2))"
        then show ?thesis
          using tr c assms trace_Text2sql [of e "tools_node e s2"] by auto
      next
        assume "fst (run_graph e Tools s2) = Tools # fst (run_graph e FilterDecision (tools_node e s2))"
        then show ?thesis
          using tr c assms trace_FilterDecision [of e "tools_node e s2"] by auto
      qed
    next
      assume c: "should_continue s2 = Text2sql"
      then show ?thesis using tr assms trace_Text2sql [of e s2] by auto
    next
      assume c: "should_continue s2 = Generation"
      then show ?thesis using tr assms by (simp add: run_Generation)
    qed
  qed
qed

text \<open>
  A run that returns a state ended in the generation stage or in the clarifier, and the
  state is what that stage returned.
\<close>

lemma final_FilterDecision:
  assumes "snd (run_graph e FilterDecision s) = Inr sf"
  shows "last (fst (run_graph e FilterDecision s)) = Generation
       \<and> (\<exists>g. generation_node e g = Inr sf \<and> query g = query s
              \<and> clarification_needed g = clarification_needed s
              \<and> tool_execution_results g = tool_execution_results s)"
proof (cases "needs_filtering (tool_calls s)")
  case (Inl ex)
  then show ?thesis using assms by (simp add: run_FilterDecision)
next
  case (Inr b)
  show ?thesis
  proof (cases b)
    case True
    then have "generation_node e (result_filter_node e s) = Inr sf"
      using assms Inr by (simp add: run_FilterDecision)
    then have "\<exists>g. generation_node e g = Inr sf \<and> query g = query s
              \<and> clarification_needed g = clarification_needed s
              \<and> tool_execution_results g = tool_execution_results s"
      by (intro exI [of _ "result_filter_node e s"]) simp
    then show ?thesis using Inr True by (simp add: run_FilterDecision)
  next
    case False
    then have "generation_node e s = Inr sf"
      using assms Inr by (simp add: run_FilterDecision)
    then have "\<exists>g. generation_node e g = Inr sf \<and> query g = query s
              \<and> clarification_needed g = clarification_needed s
              \<and> tool_execution_results g = tool_execution_results s"
      by (intro exI [of _ s]) simp
    then show ?thesis using Inr False by (simp add: run_FilterDecision)
  qed
qed

lemma final_Text2sql:
  assumes "snd (run_graph e Text2sql s) = Inr sf"
  shows "last (fst (run_graph e Text2sql s)) = Generation
       \<and> (\<exists>g. generation_node e g = Inr sf \<and> query g = query s
              \<and> clarification_needed g = clarification_needed s
              \<and> tool_execution_results g = tool_execution_results (text2sql_node e s))"
  using assms final_FilterDecision [of e "text2sql_node e s" sf]
        trace_FilterDecision [of e "text2sql_node e s"]
  by (auto simp: run_Text2sql)

lemma final_Tools:
  assumes "snd (run_graph e Tools s) = Inr sf"
  shows "(last (fst (run_graph e Tools s)) = Generation
          \<and> (\<exists>g. generation_node e g = Inr sf \<and> query g = query s
                 \<and> clarification_needed g = clarification_needed s))
       \<or> (last (fst (run_graph e Tools s)) = Clarifier
          \<and> sf = clarifier_node (tools_node e s))"
proof -
  let ?s' = "tools_node e s"
  consider (clar) "validation_status ?s' = ParamMissing \<and> retry_count ?s' < 2"
    | (sql) "\<not> (validation_status ?s' = ParamMissing \<and> retry_count ?s' < 2)" "has_text2sql ?s'"
    | (fd) "\<not> (validation_status ?s' = ParamMissing \<and> retry_count ?s' < 2)" "\<not> has_text2sql ?s'"
    by blast
  then show ?thesis
  proof cases
    case clar
    then have "run_graph e Tools s = ([Tools, Clarifier], Inr (clarifier_node ?s'))"
      by (simp add: run_Tools Let_def)
    then show ?thesis using assms by simp
  next
    case sql
    then have eq: "run_graph e Tools s =
        (Tools # fst (run_graph e Text2sql ?s'), snd (run_graph e Text2sql ?s'))"
      by (auto simp: run_Tools Let_def)
    then have "snd (run_graph e Text2sql ?s') = Inr sf"
      using assms by simp
    then show ?thesis
      using final_Text2sql [of e ?s' sf] trace_Text2sql [of e ?s'] eq by auto
  next
    case fd
    then have eq: "run_graph e Tools s =
        (Tools # fst (run_graph e FilterDecision ?s'), snd (run_graph e FilterDecision ?s'))"
      by (auto simp: run_Tools Let_def)
    then have "snd (run_graph e FilterDecision ?s') = Inr sf"
      using assms by simp
    then show ?thesis
      using final_FilterDecision [of e ?s' sf] trace_FilterDecision [of e ?s'] eq by auto
  qed
qed

lemma final_Agent:
  assumes "snd (run_graph e Agent s) = Inr sf"
  shows "(last (fst (run_graph e Agent s)) = Generation
          \<and> (\<exists>g. generation_node e g = Inr sf \<and> query g = query s
                 \<and> clarification_needed g = clarification_needed s))
       \<or> (last (fst (run_graph e Agent s)) = Clarifier
          \<and> result sf = clarification_prompt (query s) \<and> clarification_needed sf)"
proof (cases "agent_node e s")
  case (Inl ex)
  then show ?thesis using assms by (simp add: run_Agent)
next
  case (Inr s1)
  show ?thesis
  proof (cases "parse_node e s1")
    case (Inl ex)
    then show ?thesis using assms Inr by (simp add: run_Agent run_Parse)
  next
    case s2: (Inr s2)
    have tr: "fst (run_graph e Agent s) = Agent # Parse # fst (run_graph e (should_continue s2) s2)"
      and fin: "snd (run_graph e (should_continue s2) s2) = Inr sf"
      using Inr s2 assms by (simp_all add: run_Agent run_Parse)
    have q: "query s2 = query s" "clarification_needed s2 = clarification_needed s"
      using agent_node_fields [OF Inr] parse_node_fields [OF s2] by simp_all
    from should_continue_cases [of s2] show ?thesis
    proof (elim disjE)
      assume c: "should_continue s2 = Tools"
      have ne: "fst (run_graph e Tools s2) \<noteq> []"
        using trace_Tools [of e s2] by auto
      show ?thesis
        using final_Tools [of e s2 sf] fin c tr q ne
        by (auto simp: clarifier_node_def)
    next
      assume c: "should_continue s2 = Text2sql"
      have ne: "fst (run_graph e Text2sql s2) \<noteq> []"
        using trace_Text2sql [of e s2] by auto
      show ?thesis
        using final_Text2sql [of e s2 sf] fin c tr q ne by auto
    next
      assume c: "should_continue s2 = Generation"
      then show ?thesis
        using fin tr q by (auto simp: run_Generation)
    qed
  qed
qed

subsection \<open>Auxiliary facts: two example runs\<close>

lemmas run_eval = run_Agent run_Parse run_Tools run_Text2sql run_FilterDecision run_Generation
  agent_node_def parse_node_def generation_node_def log_state_change_def should_continue_def
  has_text2sql_def has_regular_tools_def tools_need_filtering_def

lemma run_reply_missing:
  "run_graph (fixture_env reply_missing) Agent (initial_state (asc ''q'')) =
     ([Agent, Parse, Tools, Clarifier],
      Inr (clarifier_node
             (tools_node (fixture_env reply_missing)
                ((initial_state (asc ''q''))
                   \<lparr>messages := [HumanMessage (asc ''q''), AIMessage reply_missing],
                    iterations := 1,
                    tool_calls := [mk_call ''search_price'' ''a''],
                    pending_tools := [mk_call ''search_price'' ''a'']\<rparr>))))"
proof -
  have agent: "agent_node (fixture_env reply_missing) (initial_state (asc ''q'')) =
      Inr ((initial_state (asc ''q''))
             \<lparr>messages := [HumanMessage (asc ''q''), AIMessage reply_missing], iterations := 1\<rparr>)"
    by (simp add: agent_node_def log_state_change_def fixture_env_def initial_state_def
        startswith_def asc_def)
  have parse: "parse_node (fixture_env reply_missing)
      ((initial_state (asc ''q''))
         \<lparr>messages := [HumanMessage (asc ''q''), AIMessage reply_missing], iterations := 1\<rparr>) =
      Inr ((initial_state (asc ''q''))
             \<lparr>messages := [HumanMessage (asc ''q''), AIMessage reply_missing],
              iterations := 1,
              tool_calls := [mk_call ''search_price'' ''a''],
              pending_tools := [mk_call ''search_price'' ''a'']\<rparr>)"
    by (simp add: parse_node_def parse_reply_missing log_state_change_def initial_state_def
        fixture_env_def)
  have status: "validation_status
      (tools_node (fixture_env reply_missing)
         ((initial_state (asc ''q''))
            \<lparr>messages := [HumanMessage (asc ''q''), AIMessage reply_missing],
             iterations := 1,
             tool_calls := [mk_call ''search_price'' ''a''],
             pending_tools := [mk_call ''search_price'' ''a'']\<rparr>)) = ParamMissing"
    by (simp add: tools_node_def tools_loop_def log_state_change_def tools_eval)
  show ?thesis
    by (simp add: run_Agent run_Parse run_Tools agent parse status Let_def should_continue_def
        has_text2sql_def has_regular_tools_def)
       (simp add: initial_state_def mk_call_def is_text2sql_def dict_get_def key_name_def
        text2sql_def asc_def)
qed

lemma agent_reply_both:
  "agent_node (fixture_env reply_both) (initial_state (asc ''q'')) =
     Inr ((initial_state (asc ''q''))
            \<lparr>messages := [HumanMessage (asc ''q''), AIMessage reply_both], iterations := 1\<rparr>)"
  by (simp add: agent_node_def log_state_change_def fixture_env_def initial_state_def
      startswith_def asc_def)

lemma parse_node_reply_both:
  "parse_node (fixture_env reply_both)
     ((initial_state (asc ''q''))
        \<lparr>messages := [HumanMessage (asc ''q''), AIMessage reply_both], iterations := 1\<rparr>) =
   Inr ((initial_state (asc ''q''))
          \<lparr>messages := [HumanMessage (asc ''q''), AIMessage reply_both],
           iterations := 1,
           tool_calls := [mk_call ''get_stock_price'' ''a'', mk_call ''text2sql'' ''b''],
           pending_tools := [mk_call ''get_stock_price'' ''a'', mk_call ''text2sql'' ''b'']\<rparr>)"
  by (simp add: parse_node_def parse_reply_both log_state_change_def initial_state_def
      fixture_env_def)

subsection \<open>Clarification gating\<close>

text \<open>
  Claim C4. After an execution stage whose validation status is \<open>param_missing\<close>: with
  \<open>retry_count\<close> 0 or 1 both routers choose the clarifier; with \<open>retry_count\<close> at
  least 2 neither does. The router after the SQL stage then goes to the filter decision;
  the router after the structured stage goes there too, by way of the SQL stage when SQL
  calls are pending, and the SQL stage is again followed by the filter decision.
\<close>

theorem clarification_gating:
  assumes "validation_status s = ParamMissing"
  shows "(retry_count s = 0 \<or> retry_count s = 1 \<longrightarrow>
            after_tools_routing s = Clarifier \<and> after_text2sql_routing s = Clarifier)
       \<and> (2 \<le> retry_count s \<longrightarrow>
            after_text2sql_routing s = FilterDecision
          \<and> after_tools_routing s = (if has_text2sql s then Text2sql else FilterDecision)
          \<and> after_text2sql_routing (text2sql_node e s) = FilterDecision)"
  using assms
  by (auto simp: after_tools_routing_def after_text2sql_routing_def)

theorem clarification_gating_witness:
  "after_tools_routing ((initial_state (asc ''q''))\<lparr>validation_status := ParamMissing\<rparr>) = Clarifier
   \<and> after_text2sql_routing ((initial_state (asc ''q''))\<lparr>validation_status := ParamMissing\<rparr>) = Clarifier
   \<and> after_tools_routing
         ((initial_state (asc ''q''))\<lparr>validation_status := ParamMissing, retry_count := 2\<rparr>)
       = FilterDecision
   \<and> after_text2sql_routing
         ((initial_state (asc ''q''))\<lparr>validation_status := ParamMissing, retry_count := 2\<rparr>)
       = FilterDecision"
  using clarification_gating
          [of "(initial_state (asc ''q''))\<lparr>validation_status := ParamMissing\<rparr>" "fixture_env []"]
        clarification_gating
          [of "(initial_state (asc ''q''))\<lparr>validation_status := ParamMissing, retry_count := 2\<rparr>"
              "fixture_env []"]
  by (simp add: initial_state_def has_text2sql_def)

subsection \<open>Fault isolation in the structured stage\<close>

lemma map_of_create_tools:
  "map_of (create_tools tm) n =
     (case map_of tm n of
        None \<Rightarrow> None
      | Some h \<Rightarrow> Some (\<lambda>q. Inr (parse_and_execute tm n q)))"
proof -
  have "map_of (map (\<lambda>k. (k, g k)) (map fst xs)) n =
          (case map_of xs n of None \<Rightarrow> None | Some h \<Rightarrow> Some (g n))"
    for g :: "ustr \<Rightarrow> json \<Rightarrow> pyexc + ustr" and xs :: "(ustr \<times> (json \<Rightarrow> pyexc + ustr)) list"
    by (induction xs) auto
  then show ?thesis by (simp add: create_tools_def)
qed

lemma tools_step_registered:
  assumes "tools e = create_tools tm" and "dict_get c key_name = JStr n"
    and "map_of tm n = Some h"
  shows "acc_results (tools_step e a c) =
           acc_results a @ [n @ lit_result @ parse_and_execute tm n (dict_get_default c key_args)]"
    and "acc_status (tools_step e a c) =
           (if \<exists>k \<in> set error_keywords.
                 contains k (parse_and_execute tm n (dict_get_default c key_args))
            then ParamMissing else acc_status a)"
  using assms by (simp_all add: tools_step_def find_tool_def map_of_create_tools fmt_def Let_def)

lemma tools_step_tool_error:
  assumes "tools e = create_tools tm" and "acc_status (tools_step e a c) = ToolError"
    and "acc_status a \<noteq> ToolError"
  shows "find_tool e (dict_get c key_name) = None"
proof (cases "find_tool e (dict_get c key_name)")
  case None
  then show ?thesis .
next
  case (Some f)
  then obtain n where n: "dict_get c key_name = JStr n" "map_of (create_tools tm) n = Some f"
    using assms(1) by (auto simp: find_tool_def split: json.splits)
  then obtain h where "map_of tm n = Some h"
    by (auto simp: map_of_create_tools split: option.splits)
  then have "acc_status (tools_step e a c) \<noteq> ToolError"
    using tools_step_registered(2) [OF assms(1) n(1)] assms(3) by simp
  then show ?thesis using assms(2) by simp
qed

text \<open>
  Claim C5, as stated, fails on the status. The registry of the example environment is
  built by \<open>create_tools\<close>, and the handler of \<open>get_market_index\<close> raises. In the batch
  of three calls whose second is that tool, the exception is turned into a text by
  \<open>parse_and_execute\<close>; the stage records the text as the normal result of the call, with
  the status \<open>success\<close>, and the batch ends \<open>success\<close>, not \<open>tool_error\<close>.
\<close>

theorem raising_handler_status_counterexample:
  "(\<exists>handler. map_of fixture_handlers (asc ''get_market_index'') = Some handler
       \<and> handler (JStr (asc ''b'')) = Inl (Failure (asc ''database is locked'')))
   \<and> tool_execution_results
       (tools_node (fixture_env []) ((initial_state (asc ''q''))\<lparr>tool_calls := three_calls\<rparr>)) =
       [asc ''get_stock_price'' @ lit_result @ asc ''70000'',
        asc ''get_market_index'' @ lit_result @
          asc ''get_market_index'' @ lit_exec_error @ asc ''database is locked'',
        asc ''search_company'' @ lit_result @ asc ''NAVER'']
   \<and> map tr_status
       (tool_results
         (tools_node (fixture_env []) ((initial_state (asc ''q''))\<lparr>tool_calls := three_calls\<rparr>))) =
       [Success, Success, Success]
   \<and> validation_status
       (tools_node (fixture_env []) ((initial_state (asc ''q''))\<lparr>tool_calls := three_calls\<rparr>)) =
       Success"
  by (simp add: three_calls_def tools_eval tools_node_def tools_loop_def log_state_change_def
      lit_exec_error_def lit_result_def contains_def)

text \<open>
  Claim C5, amended. With the registry that \<open>create_tools\<close> builds, a batch of N
  structured calls yields N result entries, appended to \<open>tool_execution_results\<close> in call
  order and joined into \<open>result\<close>; the entry of each call is the one that call yields
  when run alone, so no call's outcome depends on its siblings. When the handler of a
  call raises, the exception is caught for that call only and converted into the text
  \<open>name + lit_exec_error + str(e)\<close>, which is recorded as the call's result entry
  \<open>name + lit_result + text\<close>; the status becomes \<open>param_missing\<close> when the text carries
  a missing-parameter marker and is otherwise left as it was. A call whose handler returns
  yields \<open>name + lit_result + result\<close>. The status \<open>tool_error\<close> is set by a call that
  names no registered tool and by no other call: a batch ends \<open>tool_error\<close> only if one
  of its calls names no registered tool.
\<close>

theorem raising_handler_isolated:
  assumes "tools e = create_tools tool_mappings"
  shows
  "let regular = filter (\<lambda>c. \<not> is_text2sql c) (tool_calls s);
       lines = concat (map (\<lambda>c. acc_results (tools_step e empty_acc c)) regular)
   in tool_execution_results (tools_node e s) = tool_execution_results s @ lines
    \<and> length lines = length regular
    \<and> (regular \<noteq> [] \<longrightarrow> result (tools_node e s) = join [10, 10] lines)
    \<and> (\<forall>c n handler ex a. dict_get c key_name = JStr n
           \<and> map_of tool_mappings n = Some handler
           \<and> handler (dict_get_default c key_args) = Inl ex \<longrightarrow>
           acc_results (tools_step e empty_acc c) =
             [n @ lit_result @ n @ lit_exec_error @ exc_str ex]
           \<and> acc_status (tools_step e a c) =
               (if \<exists>k \<in> set error_keywords. contains k (n @ lit_exec_error @ exc_str ex)
                then ParamMissing else acc_status a))
    \<and> (\<forall>c n handler res. dict_get c key_name = JStr n
           \<and> map_of tool_mappings n = Some handler
           \<and> handler (dict_get_default c key_args) = Inr res \<longrightarrow>
           acc_results (tools_step e empty_acc c) = [n @ lit_result @ res])
    \<and> (\<forall>c a. find_tool e (dict_get c key_name) = None \<longrightarrow>
           acc_status (tools_step e a c) = ToolError)
    \<and> (\<forall>c a. acc_status (tools_step e a c) = ToolError \<and> acc_status a \<noteq> ToolError \<longrightarrow>
           find_tool e (dict_get c key_name) = None)
    \<and> (validation_status (tools_node e s) = ToolError \<longrightarrow>
           (\<exists>c \<in> set regular. find_tool e (dict_get c key_name) = None))"
proof -
  define regular where "regular = filter (\<lambda>c. \<not> is_text2sql c) (tool_calls s)"
  define lines where "lines = concat (map (\<lambda>c. acc_results (tools_step e empty_acc c)) regular)"
  have one: "length (acc_results (tools_step e empty_acc c)) = 1" for c
    using tools_step_results [of e empty_acc c] by auto
  have len: "length lines = length regular"
    unfolding lines_def by (induction regular) (simp_all add: one)
  have ex: "tool_execution_results (tools_node e s) = tool_execution_results s @ lines"
    by (simp add: tools_node_exec_results lines_def regular_def)
  have res: "regular \<noteq> [] \<Longrightarrow> result (tools_node e s) = join [10, 10] lines"
    using tools_loop_results [of e _ regular]
    by (simp add: tools_node_def Let_def lines_def regular_def empty_acc_def)
  have raise: "acc_results (tools_step e empty_acc c) =
             [n @ lit_result @ n @ lit_exec_error @ exc_str ex]
           \<and> acc_status (tools_step e a c) =
               (if \<exists>k \<in> set error_keywords. contains k (n @ lit_exec_error @ exc_str ex)
                then ParamMissing else acc_status a)"
    if "dict_get c key_name = JStr n" "map_of tool_mappings n = Some handler"
      "handler (dict_get_default c key_args) = Inl ex" for c n handler ex a
    using tools_step_registered [OF assms that(1,2)] that(2,3)
    by (simp add: parse_and_execute_def empty_acc_def)
  have ok: "acc_results (tools_step e empty_acc c) = [n @ lit_result @ res]"
    if "dict_get c key_name = JStr n" "map_of tool_mappings n = Some handler"
      "handler (dict_get_default c key_args) = Inr res" for c n handler res
    using tools_step_registered(1) [OF assms that(1,2)] that(2,3)
    by (simp add: parse_and_execute_def empty_acc_def)
  have unknown: "acc_status (tools_step e a c) = ToolError"
    if "find_tool e (dict_get c key_name) = None" for c a
    using that by (simp add: tools_step_def Let_def)
  have only: "find_tool e (dict_get c key_name) = None"
    if "acc_status (tools_step e a c) = ToolError" "acc_status a \<noteq> ToolError" for c a
    using tools_step_tool_error [OF assms that] .
  have batch: "\<exists>c \<in> set regular. find_tool e (dict_get c key_name) = None"
    if te: "validation_status (tools_node e s) = ToolError"
  proof -
    define failures where
      "failures = filter (\<lambda>st. st \<noteq> Success)
                    (map (\<lambda>c. acc_status (tools_step e empty_acc c)) regular)"
    have st: "validation_status (tools_node e s) =
                (if failures = [] then Success else last failures)"
    proof (cases "regular = []")
      case True
      then show ?thesis
        by (simp add: tools_node_def Let_def regular_def [symmetric] failures_def)
    next
      case False
      then show ?thesis
        by (simp add: tools_node_def Let_def regular_def [symmetric] failures_def
            tools_loop_status)
    qed
    then have "failures \<noteq> []" "last failures = ToolError"
      using te by (auto split: if_splits)
    then have "ToolError \<in> set failures"
      using last_in_set by metis
    then obtain c where c: "c \<in> set regular" "acc_status (tools_step e empty_acc c) = ToolError"
      by (auto simp: failures_def)
    have "find_tool e (dict_get c key_name) = None"
      using only [OF c(2)] by (simp add: empty_acc_def)
    then show ?thesis using c(1) by blast
  qed
  show ?thesis
    unfolding Let_def regular_def [symmetric] lines_def [symmetric]
    using len ex res raise ok unknown only batch by blast
qed

text \<open>
  Three calls, the second of which raises: three entries, the first and third normal, the
  second the text made of the exception.
\<close>

theorem raising_handler_isolated_witness:
  "tool_execution_results
     (tools_node (fixture_env []) ((initial_state (asc ''q''))\<lparr>tool_calls := three_calls\<rparr>)) =
     [asc ''get_stock_price'' @ lit_result @ asc ''70000'',
      asc ''get_market_index'' @ lit_result @
        asc ''get_market_index'' @ lit_exec_error @ asc ''database is locked'',
      asc ''search_company'' @ lit_result @ asc ''NAVER'']
   \<and> tools (fixture_env []) = create_tools fixture_handlers"
  using raising_handler_isolated
          [of "fixture_env []" fixture_handlers
              "(initial_state (asc ''q''))\<lparr>tool_calls := three_calls\<rparr>"]
  by (simp add: three_calls_def tools_eval)

subsection \<open>The validation status of a batch\<close>

text \<open>
  Claim C6, as stated, fails: a call classified \<open>success\<close> does not overwrite the
  status an earlier call left. In the batch below the first call's output carries a
  missing-parameter marker and the second, last call succeeds; the batch ends
  \<open>param_missing\<close>.
\<close>

theorem last_writer_wins_counterexample:
  "acc_status (tools_step (fixture_env []) empty_acc (mk_call ''get_stock_price'' ''b'')) = Success
   \<and> validation_status
         (tools_node (fixture_env []) ((initial_state (asc ''q''))\<lparr>tool_calls := two_calls\<rparr>))
       = ParamMissing"
  by (simp add: two_calls_def tools_eval tools_node_def tools_loop_def log_state_change_def)

text \<open>
  Claim C6, amended. The batch's validation status is the classification of the last call
  whose own classification is not \<open>success\<close> (\<open>param_missing\<close> for a marker phrase,
  \<open>tool_error\<close> for an exception or an unknown tool), and \<open>success\<close> when every call
  is classified \<open>success\<close>.
\<close>

theorem validation_status_last_failure_wins:
  "validation_status (tools_node e s) =
     (let failures = filter (\<lambda>st. st \<noteq> Success)
                       (map (\<lambda>c. acc_status (tools_step e empty_acc c))
                            (filter (\<lambda>c. \<not> is_text2sql c) (tool_calls s)))
      in if failures = [] then Success else last failures)"
proof (cases "filter (\<lambda>c. \<not> is_text2sql c) (tool_calls s) = []")
  case True
  then show ?thesis by (simp add: tools_node_def Let_def)
next
  case False
  then show ?thesis
    by (simp add: tools_node_def Let_def tools_loop_status)
qed

theorem validation_status_last_failure_wins_witness:
  "validation_status
     (tools_node (fixture_env []) ((initial_state (asc ''q''))\<lparr>tool_calls := two_calls\<rparr>))
   = ParamMissing"
  using validation_status_last_failure_wins
          [of "fixture_env []" "(initial_state (asc ''q''))\<lparr>tool_calls := two_calls\<rparr>"]
  by (simp add: two_calls_def tools_eval)

subsection \<open>The SQL stage never leads to the clarifier\<close>

text \<open>
  Claim C10. \<open>text2sql_node\<close> leaves a validation status of \<open>success\<close> or
  \<open>tool_error\<close>, never \<open>param_missing\<close>; so the router after the SQL stage always
  chooses the filter decision, no run from the SQL stage enters the clarifier, and a run
  of the graph that enters the clarifier entered it straight from the structured stage:
  its nodes are agent, parse, tools, clarifier.
\<close>

theorem sql_stage_never_asks_for_clarification:
  "validation_status (text2sql_node e s) \<in> {Success, ToolError}
   \<and> validation_status (text2sql_node e s) \<noteq> ParamMissing
   \<and> after_text2sql_routing (text2sql_node e s) = FilterDecision
   \<and> Clarifier \<notin> set (fst (run_graph e Text2sql s))
   \<and> (Clarifier \<in> set (fst (run_graph e Agent s)) \<longrightarrow>
        fst (run_graph e Agent s) = [Agent, Parse, Tools, Clarifier])"
proof -
  have "Clarifier \<notin> set (fst (run_graph e Text2sql s))"
    using trace_Text2sql [of e s] by auto
  moreover have "validation_status (text2sql_node e s) \<noteq> ParamMissing"
    using text2sql_node_status [of e s] by auto
  ultimately show ?thesis
    using text2sql_node_status [of e s] after_text2sql_node [of e s] clarifier_only_after_tools [of e s]
    by blast
qed

theorem sql_stage_never_asks_for_clarification_witness:
  "Clarifier \<in> set (fst (run_graph (fixture_env reply_missing) Agent (initial_state (asc ''q''))))
   \<and> fst (run_graph (fixture_env reply_missing) Agent (initial_state (asc ''q''))) =
       [Agent, Parse, Tools, Clarifier]"
  using sql_stage_never_asks_for_clarification
          [of "fixture_env reply_missing" "initial_state (asc ''q'')"]
  by (simp add: run_reply_missing)

subsection \<open>How a run ends\<close>

text \<open>
  Claim C2. For the run \<open>search\<close> starts on a query, exactly one of three holds when
  it completes: the graph returned a state that the generation stage produced (the trace
  ends in generation, the flag \<open>clarification_needed\<close> is unset, and the answer of
  \<open>search\<close> is that state's \<open>result\<close>); the graph returned a state that the clarifier
  produced (the trace ends in the clarifier, the flag is set, and the answer is the
  clarification prompt for the query); or an exception ended the run and \<open>search\<close>
  answers with the error text made of it. No trace holds both the clarifier and the
  generation stage.
\<close>

theorem run_ends_in_exactly_one_way:
  "let tr = fst (run_graph e Agent (initial_state q));
       r = snd (run_graph e Agent (initial_state q));
       by_generation =
         (\<exists>sf g. r = Inr sf \<and> last tr = Generation \<and> generation_node e g = Inr sf
                 \<and> query g = q \<and> \<not> clarification_needed sf
                 \<and> search e q False = Plain (result sf));
       by_clarifier =
         (\<exists>sf. r = Inr sf \<and> last tr = Clarifier \<and> clarification_needed sf
               \<and> result sf = clarification_prompt q
               \<and> search e q False = Plain (clarification_prompt q));
       by_error =
         (\<exists>ex. r = Inl ex \<and> search e q False = Plain (lit_search_error @ exc_str ex))
   in \<not> (Clarifier \<in> set tr \<and> Generation \<in> set tr)
    \<and> ((by_generation \<and> \<not> by_clarifier \<and> \<not> by_error)
       \<or> (by_clarifier \<and> \<not> by_generation \<and> \<not> by_error)
       \<or> (by_error \<and> \<not> by_generation \<and> \<not> by_clarifier))"
proof -
  define tr where "tr = fst (run_graph e Agent (initial_state q))"
  define r where "r = snd (run_graph e Agent (initial_state q))"
  define by_generation where "by_generation \<longleftrightarrow>
         (\<exists>sf g. r = Inr sf \<and> last tr = Generation \<and> generation_node e g = Inr sf
                 \<and> query g = q \<and> \<not> clarification_needed sf
                 \<and> search e q False = Plain (result sf))"
  define by_clarifier where "by_clarifier \<longleftrightarrow>
         (\<exists>sf. r = Inr sf \<and> last tr = Clarifier \<and> clarification_needed sf
               \<and> result sf = clarification_prompt q
               \<and> search e q False = Plain (clarification_prompt q))"
  define by_error where "by_error \<longleftrightarrow>
         (\<exists>ex. r = Inl ex \<and> search e q False = Plain (lit_search_error @ exc_str ex))"
  have not_both: "\<not> (Clarifier \<in> set tr \<and> Generation \<in> set tr)"
    using clarifier_only_after_tools [of e "initial_state q"] unfolding tr_def by auto
  have one: "(by_generation \<and> \<not> by_clarifier \<and> \<not> by_error)
       \<or> (by_clarifier \<and> \<not> by_generation \<and> \<not> by_error)
       \<or> (by_error \<and> \<not> by_generation \<and> \<not> by_clarifier)"
  proof (cases r)
    case (Inl ex)
    then have "by_error"
      unfolding by_error_def r_def by (simp add: search_def)
    moreover have "\<not> by_generation" "\<not> by_clarifier"
      using Inl unfolding by_generation_def by_clarifier_def by simp_all
    ultimately show ?thesis by blast
  next
    case (Inr sf)
    have ans: "search e q False = Plain (result sf)"
      using Inr unfolding r_def by (simp add: search_def)
    have no_error: "\<not> by_error"
      using Inr unfolding by_error_def by simp
    from final_Agent [of e "initial_state q" sf] Inr
    consider (gen) g where "last tr = Generation" "generation_node e g = Inr sf"
        "query g = q" "clarification_needed g = False"
      | (clar) "last tr = Clarifier" "result sf = clarification_prompt q" "clarification_needed sf"
      unfolding r_def tr_def by (auto simp: initial_state_def)
    then show ?thesis
    proof cases
      case gen
      have "\<not> clarification_needed sf"
        using generation_node_fields(2) [OF gen(2)] gen(4) by simp
      then have "by_generation"
        unfolding by_generation_def using Inr gen ans by blast
      moreover have "\<not> by_clarifier"
        unfolding by_clarifier_def using gen(1) by simp
      ultimately show ?thesis using no_error by blast
    next
      case clar
      then have "by_clarifier"
        unfolding by_clarifier_def using Inr ans by simp
      moreover have "\<not> by_generation"
        unfolding by_generation_def using clar(1) by simp
      ultimately show ?thesis using no_error by blast
    qed
  qed
  show ?thesis
    unfolding Let_def
    using not_both one
    unfolding tr_def r_def by_generation_def by_clarifier_def by_error_def
    by blast
qed

text \<open>
  The run on the reply whose tool reports a missing parameter ends in the clarifier:
  \<open>search\<close> answers with the clarification prompt.
\<close>

theorem run_ends_in_exactly_one_way_witness:
  "last (fst (run_graph (fixture_env reply_missing) Agent (initial_state (asc ''q'')))) = Clarifier
   \<and> search (fixture_env reply_missing) (asc ''q'') False = Plain (clarification_prompt (asc ''q''))"
  using run_ends_in_exactly_one_way [of "fixture_env reply_missing" "asc ''q''"]
  by (simp add: run_reply_missing search_def clarifier_node_def Let_def)

subsection \<open>The structured stage precedes the SQL stage\<close>

text \<open>
  Claim C3, as stated, fails. On the reply with a price call whose tool reports a missing
  parameter and an SQL call, the parsed call list holds both kinds of call; the structured
  stage runs and ends \<open>param_missing\<close>, the run goes on to the clarifier and ends
  there. The SQL stage is never entered, the SQL call is never executed, and the tool
  output holds the price entry only.
\<close>

theorem sql_stage_skipped_counterexample:
  "parse_tool_calls (fixture_env reply_missing_both) reply_missing_both =
     Inr [mk_call ''search_price'' ''a'', mk_call ''text2sql'' ''b'']
   \<and> is_text2sql (mk_call ''text2sql'' ''b'') \<and> \<not> is_text2sql (mk_call ''search_price'' ''a'')
   \<and> fst (run_graph (fixture_env reply_missing_both) Agent (initial_state (asc ''q''))) =
       [Agent, Parse, Tools, Clarifier]
   \<and> (\<exists>sf. snd (run_graph (fixture_env reply_missing_both) Agent (initial_state (asc ''q''))) =
              Inr sf
           \<and> tool_execution_results sf = [asc ''search_price'' @ lit_result @ error_keywords ! 1]
           \<and> result sf = clarification_prompt (asc ''q''))"
proof -
  let ?e = "fixture_env reply_missing_both"
  let ?s1 = "(initial_state (asc ''q''))
          \<lparr>messages := [HumanMessage (asc ''q''), AIMessage reply_missing_both],
           iterations := 1\<rparr>"
  let ?s2 = "(initial_state (asc ''q''))
          \<lparr>messages := [HumanMessage (asc ''q''), AIMessage reply_missing_both],
           iterations := 1,
           tool_calls := [mk_call ''search_price'' ''a'', mk_call ''text2sql'' ''b''],
           pending_tools := [mk_call ''search_price'' ''a'', mk_call ''text2sql'' ''b'']\<rparr>"
  have agent: "agent_node ?e (initial_state (asc ''q'')) = Inr ?s1"
    by (simp add: agent_node_def log_state_change_def fixture_env_def initial_state_def
        startswith_def asc_def)
  have parse: "parse_node ?e ?s1 = Inr ?s2"
    by (simp add: parse_node_def parse_reply_missing_both log_state_change_def
        initial_state_def fixture_env_def)
  have kinds: "is_text2sql (mk_call ''text2sql'' ''b'')"
      "\<not> is_text2sql (mk_call ''search_price'' ''a'')"
    by (simp_all add: tools_eval)
  have both: "has_regular_tools ?s2" "has_text2sql ?s2"
    using kinds by (simp_all add: has_regular_tools_def has_text2sql_def)
  have route: "should_continue ?s2 = Tools"
    using both by (auto simp: should_continue_def has_text2sql_def)
  have status: "validation_status (tools_node ?e ?s2) = ParamMissing"
    by (simp add: tools_node_def tools_loop_def log_state_change_def tools_eval)
  have entries: "tool_execution_results (tools_node ?e ?s2) =
      [asc ''search_price'' @ lit_result @ error_keywords ! 1]"
    by (simp add: tools_node_def tools_loop_def log_state_change_def tools_eval)
  have retry: "retry_count (tools_node ?e ?s2) = 0" "query (tools_node ?e ?s2) = asc ''q''"
    by (simp_all add: initial_state_def)
  have tools: "run_graph ?e Tools ?s2 = ([Tools, Clarifier], Inr (clarifier_node (tools_node ?e ?s2)))"
    using status retry by (simp add: run_Tools Let_def)
  have run: "run_graph ?e Agent (initial_state (asc ''q'')) =
      ([Agent, Parse, Tools, Clarifier], Inr (clarifier_node (tools_node ?e ?s2)))"
    using agent parse route tools by (simp add: run_Agent run_Parse)
  have fin: "tool_execution_results (clarifier_node (tools_node ?e ?s2)) =
      [asc ''search_price'' @ lit_result @ error_keywords ! 1]"
      "result (clarifier_node (tools_node ?e ?s2)) = clarification_prompt (asc ''q'')"
    using entries retry by (simp_all add: clarifier_node_def)
  show ?thesis
    using parse_reply_missing_both [of ?e] kinds run fin by simp
qed

text \<open>
  Claim C3, amended. When the parsed call list holds a structured call and an SQL call,
  the run enters the structured stage right after parsing. The SQL stage runs after it,
  and once, exactly when the structured batch does not end \<open>param_missing\<close>: the trace
  is then agent, parse, tools, text2sql and on; when the batch ends \<open>param_missing\<close> the
  trace is agent, parse, tools, clarifier, and the SQL calls are not executed. In the state
  a run returns, \<open>tool_execution_results\<close> is the list of the structured calls' entries
  followed, when the SQL stage has run, by the list of the SQL calls' entries, and the
  generation stage then hands the model these entries joined in that order.
\<close>

theorem structured_stage_precedes_sql_stage:
  assumes "agent_node e (initial_state q) = Inr s1" and "parse_node e s1 = Inr s2"
    and "has_regular_tools s2" and "has_text2sql s2"
  shows "let tr = fst (run_graph e Agent (initial_state q));
             r = snd (run_graph e Agent (initial_state q));
             structured = concat (map (\<lambda>c. acc_results (tools_step e empty_acc c))
                                      (filter (\<lambda>c. \<not> is_text2sql c) (tool_calls s2)));
             sql = concat (map (\<lambda>c. acc_results (text2sql_step e q empty_acc c))
                               (filter is_text2sql (tool_calls s2)))
         in (tr = [Agent, Parse, Tools, Clarifier]
             \<or> (\<exists>rest. tr = [Agent, Parse, Tools, Text2sql] @ rest
                        \<and> Tools \<notin> set rest \<and> Text2sql \<notin> set rest))
          \<and> (Text2sql \<in> set tr) = (validation_status (tools_node e s2) \<noteq> ParamMissing)
          \<and> (\<forall>sf. r = Inr sf \<and> Text2sql \<in> set tr \<longrightarrow>
                 tool_execution_results sf = structured @ sql
                 \<and> llm_main e (generation_prompt q (join [10, 10] (structured @ sql)))
                     = Inr (result sf))
          \<and> (\<forall>sf. r = Inr sf \<and> Text2sql \<notin> set tr \<longrightarrow>
                 tool_execution_results sf = structured)"
proof -
  define structured where
    "structured = concat (map (\<lambda>c. acc_results (tools_step e empty_acc c))
                              (filter (\<lambda>c. \<not> is_text2sql c) (tool_calls s2)))"
  define sql where
    "sql = concat (map (\<lambda>c. acc_results (text2sql_step e q empty_acc c))
                       (filter is_text2sql (tool_calls s2)))"
  let ?s3 = "tools_node e s2"
  have q2: "query s2 = q" "retry_count s2 = 0" "tool_execution_results s2 = []"
    using agent_node_fields [OF assms(1)] parse_node_fields [OF assms(2)]
    by (simp_all add: initial_state_def)
  have route: "should_continue s2 = Tools"
    using assms(3,4) by (auto simp: should_continue_def has_text2sql_def)
  have run: "run_graph e Agent (initial_state q) =
      (Agent # Parse # fst (run_graph e Tools s2), snd (run_graph e Tools s2))"
    using assms(1,2) route by (simp add: run_Agent run_Parse)
  have ex3: "tool_execution_results ?s3 = structured"
    by (simp add: tools_node_exec_results q2 structured_def)
  obtain c where c: "c \<in> set (tool_calls s2)" "\<not> is_text2sql c"
    using assms(3) by (auto simp: has_regular_tools_def)
  have "acc_results (tools_step e empty_acc c) \<noteq> []"
    using tools_step_results [of e empty_acc c] by auto
  then have ne: "structured \<noteq> []"
    using c unfolding structured_def by (auto simp: filter_empty_conv)
  have sql3: "has_text2sql ?s3"
    using assms(4) by (simp add: has_text2sql_def)
  show ?thesis
  proof (cases "validation_status ?s3 = ParamMissing")
    case True
    then have t: "run_graph e Tools s2 = ([Tools, Clarifier], Inr (clarifier_node ?s3))"
      using q2 by (simp add: run_Tools Let_def)
    have "tool_execution_results (clarifier_node ?s3) = structured"
      using ex3 by (simp add: clarifier_node_def)
    then show ?thesis
      unfolding Let_def structured_def [symmetric] sql_def [symmetric]
      using True by (simp add: run t)
  next
    case False
    then have t: "run_graph e Tools s2 =
        (Tools # fst (run_graph e Text2sql ?s3), snd (run_graph e Text2sql ?s3))"
      using sql3 by (simp add: run_Tools Let_def)
    let ?s4 = "text2sql_node e ?s3"
    have ex4: "tool_execution_results ?s4 = structured @ sql"
      by (simp add: text2sql_node_exec_results ex3 q2 sql_def)
    have t2: "fst (run_graph e Text2sql ?s3) = Text2sql # fst (run_graph e FilterDecision ?s4)"
      by (simp add: run_Text2sql)
    have shape: "\<exists>rest. fst (run_graph e Agent (initial_state q)) =
                   [Agent, Parse, Tools, Text2sql] @ rest
                   \<and> Tools \<notin> set rest \<and> Text2sql \<notin> set rest"
      using trace_FilterDecision [of e ?s4] by (auto simp: run t t2)
    have mem: "Text2sql \<in> set (fst (run_graph e Agent (initial_state q)))"
      by (simp add: run t t2)
    have fin: "tool_execution_results sf = structured @ sql
             \<and> llm_main e (generation_prompt q (join [10, 10] (structured @ sql))) = Inr (result sf)"
      if "snd (run_graph e Agent (initial_state q)) = Inr sf" for sf
    proof -
      have "snd (run_graph e Text2sql ?s3) = Inr sf"
        using that by (simp add: run t)
      then obtain g where g: "generation_node e g = Inr sf" "query g = query ?s3"
          "tool_execution_results g = tool_execution_results ?s4"
        using final_Text2sql [of e ?s3 sf] by blast
      have "generation_tool_result g = join [10, 10] (structured @ sql)"
        using g(3) ex4 ne by (simp add: generation_tool_result_def)
      then show ?thesis
        using generation_node_fields [OF g(1)] g(2,3) ex4 q2 by simp
    qed
    show ?thesis
      unfolding Let_def structured_def [symmetric] sql_def [symmetric]
      using False shape mem fin by blast
  qed
qed

text \<open>
  The run on the reply with a price call and an SQL call: both stages run, in that order,
  and the state returned lists the price entry before the SQL entry.
\<close>

theorem structured_stage_precedes_sql_stage_witness:
  "(\<exists>rest. fst (run_graph (fixture_env reply_both) Agent (initial_state (asc ''q''))) =
            [Agent, Parse, Tools, Text2sql] @ rest)
   \<and> (\<exists>sf. snd (run_graph (fixture_env reply_both) Agent (initial_state (asc ''q''))) = Inr sf
           \<and> tool_execution_results sf =
               [asc ''get_stock_price'' @ lit_result @ asc ''70000'',
                text2sql @ lit_result @ asc ''3 rows''])"
proof -
  let ?e = "fixture_env reply_both"
  let ?s2 = "(initial_state (asc ''q''))
          \<lparr>messages := [HumanMessage (asc ''q''), AIMessage reply_both],
           iterations := 1,
           tool_calls := [mk_call ''get_stock_price'' ''a'', mk_call ''text2sql'' ''b''],
           pending_tools := [mk_call ''get_stock_price'' ''a'', mk_call ''text2sql'' ''b'']\<rparr>"
  have both: "has_regular_tools ?s2" "has_text2sql ?s2"
    by (simp_all add: has_regular_tools_def has_text2sql_def tools_eval)
  have st: "validation_status (tools_node ?e ?s2) \<noteq> ParamMissing"
    by (simp add: tools_node_def tools_loop_def log_state_change_def tools_eval)
  have lines:
    "concat (map (\<lambda>c. acc_results (tools_step ?e empty_acc c))
                 (filter (\<lambda>c. \<not> is_text2sql c) (tool_calls ?s2))) =
       [asc ''get_stock_price'' @ lit_result @ asc ''70000'']"
    "concat (map (\<lambda>c. acc_results (text2sql_step ?e (asc ''q'') empty_acc c))
                 (filter is_text2sql (tool_calls ?s2))) =
       [text2sql @ lit_result @ asc ''3 rows'']"
    by (simp_all add: tools_eval text2sql_step_def)
  let ?s3 = "tools_node ?e ?s2"
  let ?s4 = "text2sql_node ?e ?s3"
  have nf: "needs_filtering (tool_calls ?s4) = Inr True"
    by (simp add: tools_eval hashable_def tools_need_filtering_def)
  have gen: "\<exists>sf. generation_node ?e g = Inr sf" for g
    by (simp add: generation_node_def fixture_env_def generation_prompt_def generation_seg1_def
        startswith_def asc_def)
  have fd: "snd (run_graph ?e FilterDecision ?s4) = generation_node ?e (result_filter_node ?e ?s4)"
    by (simp only: run_FilterDecision nf sum.case if_True snd_conv)
  have sql3: "has_text2sql ?s3"
    using both(2) by (simp add: has_text2sql_def)
  have tl: "snd (run_graph ?e Tools ?s2) = snd (run_graph ?e Text2sql ?s3)"
    using st sql3 by (auto simp: run_Tools Let_def)
  have "should_continue ?s2 = Tools"
    using both by (auto simp: should_continue_def has_text2sql_def)
  then have "snd (run_graph ?e Agent (initial_state (asc ''q''))) = snd (run_graph ?e Tools ?s2)"
    by (simp add: run_Agent run_Parse agent_reply_both parse_node_reply_both)
  then have "snd (run_graph ?e Agent (initial_state (asc ''q''))) =
      generation_node ?e (result_filter_node ?e ?s4)"
    using tl fd by (simp add: run_Text2sql)
  then have ok: "\<exists>sf. snd (run_graph ?e Agent (initial_state (asc ''q''))) = Inr sf"
    using gen by simp
  from structured_stage_precedes_sql_stage
         [OF agent_reply_both parse_node_reply_both both, unfolded Let_def lines] st ok
  show ?thesis by auto
qed

subsection \<open>The call parser can raise\<close>

lemma parse_reply_object_args:
  "parse_tool_calls e reply_object_args =
     Inl (TypeError (asc ''unhashable type: '' @ [39] @ asc ''dict'' @ [39]))"
  by (simp add: reply_object_args_def object_call_def stock_samsung_def rx_eval json_eval
      parser_eval)

text \<open>
  Claim C1 does not hold of the code. On the reply
  \<open>TOOL_CALL: {"name": "get_stock_price", "args": {K1: "...", K2: "2024-11-06"}}\<close>
  (\<open>K1\<close>, \<open>K2\<close> the two Korean keys) pass 1 keeps the decoded object with its
  \<open>args\<close> still an object, and the removal of duplicates then raises \<open>TypeError\<close>
  when it hashes the pair of name and args; nothing in the parser catches it. The
  exception leaves the graph, and \<open>search\<close> answers with the error text.
\<close>

theorem parse_tool_calls_raises:
  "parse_tool_calls (fixture_env reply_object_args) reply_object_args =
     Inl (TypeError (asc ''unhashable type: '' @ [39] @ asc ''dict'' @ [39]))
   \<and> run_graph (fixture_env reply_object_args) Agent (initial_state (asc ''q'')) =
       ([Agent, Parse], Inl (TypeError (asc ''unhashable type: '' @ [39] @ asc ''dict'' @ [39])))
   \<and> search (fixture_env reply_object_args) (asc ''q'') False =
       Plain (lit_search_error @ asc ''unhashable type: '' @ [39] @ asc ''dict'' @ [39])"
proof -
  let ?e = "fixture_env reply_object_args"
  let ?s1 = "(initial_state (asc ''q''))
          \<lparr>messages := [HumanMessage (asc ''q''), AIMessage reply_object_args],
           iterations := 1\<rparr>"
  let ?ex = "TypeError (asc ''unhashable type: '' @ [39] @ asc ''dict'' @ [39])"
  have agent: "agent_node ?e (initial_state (asc ''q'')) = Inr ?s1"
    by (simp add: agent_node_def log_state_change_def fixture_env_def initial_state_def
        startswith_def asc_def)
  have parse: "parse_node ?e ?s1 = Inl ?ex"
    by (simp add: parse_node_def parse_reply_object_args log_state_change_def
        initial_state_def fixture_env_def)
  have run: "run_graph ?e Agent (initial_state (asc ''q'')) = ([Agent, Parse], Inl ?ex)"
    by (simp add: run_Agent run_Parse agent parse)
  have "search ?e (asc ''q'') False = Plain (lit_search_error @ exc_str ?ex)"
    by (simp add: search_def run)
  then show ?thesis
    using parse_reply_object_args [of ?e] run by simp
qed

subsection \<open>The arguments of the records the parser returns\<close>

lemma map_of_dict_set: "map_of (dict_set d k v) k = Some v"
  by (induction d k v rule: dict_set.induct) simp_all

lemma map_of_dict_set_other: "k' \<noteq> k \<Longrightarrow> map_of (dict_set d k v) k' = map_of d k'"
  by (induction d k v rule: dict_set.induct) simp_all

lemma flatten_args_keys:
  "has_key tc key_name \<Longrightarrow> has_key tc key_args \<Longrightarrow>
   has_key (flatten_args e tc) key_name \<and> has_key (flatten_args e tc) key_args"
  by (auto simp: flatten_args_def has_key_def map_of_dict_set map_of_dict_set_other
      key_name_def key_args_def asc_def split: json.splits)

lemma flatten_args_not_object: "dict_get (flatten_args e tc) key_args \<noteq> JObj d"
  by (auto simp: flatten_args_def dict_get_def map_of_dict_set split: json.splits option.splits)

lemma sql_call_keyed: "well_keyed (sql_call e d)"
  by (simp add: well_keyed_def sql_call_def has_key_def key_name_def key_args_def asc_def)

lemma pass1_keyed:
  "pass1 ms tc = Inr tc' \<Longrightarrow> \<forall>c \<in> set tc. well_keyed c \<Longrightarrow> \<forall>c \<in> set tc'. well_keyed c"
proof (induction ms arbitrary: tc)
  case Nil
  then show ?case by simp
next
  case (Cons m ms)
  show ?case
  proof (cases "json_loads (strip m)")
    case None
    then show ?thesis using Cons by simp
  next
    case (Some v)
    show ?thesis
    proof (cases v)
      case (JObj d)
      let ?tc = "if has_key d key_name \<and> has_key d key_args then tc @ [d] else tc"
      have "pass1 ms ?tc = Inr tc'"
        using Cons.prems(1) Some JObj by simp
      moreover have "\<forall>c \<in> set ?tc. well_keyed c"
        using Cons.prems(2) by (simp add: well_keyed_def)
      ultimately show ?thesis using Cons.IH by blast
    qed (use Cons.prems Some in simp_all)
  qed
qed

lemma pass2_keyed:
  "pass2 e ms tc = Inr tc' \<Longrightarrow> \<forall>c \<in> set tc. well_keyed c \<Longrightarrow> \<forall>c \<in> set tc'. well_keyed c"
proof (induction ms arbitrary: tc)
  case Nil
  then show ?case by simp
next
  case (Cons m ms)
  show ?case
  proof (cases "json_loads (strip m)")
    case None
    then show ?thesis using Cons by simp
  next
    case (Some v)
    show ?thesis
    proof (cases v)
      case (JObj d)
      let ?tc = "if is_directive d then tc @ [sql_call e d]
                 else if has_key d key_name \<and> has_key d key_args then tc @ [d] else tc"
      have "pass2 e ms ?tc = Inr tc'"
        using Cons.prems(1) Some JObj by simp
      moreover have "\<forall>c \<in> set ?tc. well_keyed c"
        using Cons.prems(2) sql_call_keyed by (auto simp: well_keyed_def)
      ultimately show ?thesis using Cons.IH by blast
    qed (use Cons.prems Some in simp_all)
  qed
qed

lemma pass3_keyed:
  "pass3 e ms tc = Inr tc' \<Longrightarrow> \<forall>c \<in> set tc. well_keyed c \<Longrightarrow> \<forall>c \<in> set tc'. well_keyed c"
proof (induction ms arbitrary: tc)
  case Nil
  then show ?case by simp
next
  case (Cons m ms)
  show ?case
  proof (cases "json_loads (strip m)")
    case None
    then show ?thesis using Cons by simp
  next
    case (Some v)
    show ?thesis
    proof (cases v)
      case (JObj d)
      let ?tc = "if is_directive d then tc @ [sql_call e d] else tc"
      have "pass3 e ms ?tc = Inr tc'"
        using Cons.prems(1) Some JObj by simp
      moreover have "\<forall>c \<in> set ?tc. well_keyed c"
        using Cons.prems(2) sql_call_keyed by auto
      ultimately show ?thesis using Cons.IH by blast
    qed (use Cons.prems Some in simp_all)
  qed
qed

lemma pass4_appends:
  "pass4 e ms tc = Inr tc' \<Longrightarrow>
   \<exists>new. tc' = tc @ new
         \<and> (\<forall>c \<in> set new. well_keyed c \<and> (\<forall>d. dict_get c key_args \<noteq> JObj d))"
proof (induction ms arbitrary: tc)
  case Nil
  then show ?case by simp
next
  case (Cons m ms)
  show ?case
  proof (cases "json_loads (strip m)")
    case None
    then show ?thesis using Cons by simp
  next
    case (Some v)
    show ?thesis
    proof (cases v)
      case (JObj d)
      show ?thesis
      proof (cases "has_key d key_name \<and> has_key d key_args")
        case True
        then have "pass4 e ms (tc @ [flatten_args e d]) = Inr tc'"
          using Cons.prems Some JObj by simp
        then obtain new where new: "tc' = (tc @ [flatten_args e d]) @ new"
            "\<forall>c \<in> set new. well_keyed c \<and> (\<forall>d. dict_get c key_args \<noteq> JObj d)"
          using Cons.IH by blast
        have "well_keyed (flatten_args e d)"
          using True flatten_args_keys by (simp add: well_keyed_def)
        then have "\<forall>c \<in> set (flatten_args e d # new).
                     well_keyed c \<and> (\<forall>d. dict_get c key_args \<noteq> JObj d)"
          using new(2) flatten_args_not_object by simp
        moreover have "tc' = tc @ (flatten_args e d # new)"
          using new(1) by simp
        ultimately show ?thesis by blast
      next
        case False
        then have "pass4 e ms tc = Inr tc'"
          using Cons.prems Some JObj by auto
        then show ?thesis using Cons.IH by blast
      qed
    qed (use Cons.prems Some in simp_all)
  qed
qed

lemma dedup_unfold:
  "dedup e (c # calls) seen uniq =
     (if \<not> hashable (dict_get c key_name) then Inl (unhashable (dict_get c key_name))
      else if \<not> hashable (dict_get c key_args) then Inl (unhashable (dict_get c key_args))
      else if \<exists>(n', a') \<in> set seen. py_eq e (dict_get c key_name) n' \<and> py_eq e (dict_get c key_args) a'
      then dedup e calls seen uniq
      else dedup e calls (seen @ [(dict_get c key_name, dict_get c key_args)]) (uniq @ [c]))"
  by (simp add: Let_def)

lemma dedup_result:
  "dedup e calls seen uniq = Inr r \<Longrightarrow>
   \<forall>c \<in> set uniq. P c \<and> hashable (dict_get c key_name) \<and> hashable (dict_get c key_args) \<Longrightarrow>
   \<forall>c \<in> set calls. P c \<Longrightarrow>
   \<forall>c \<in> set r. P c \<and> hashable (dict_get c key_name) \<and> hashable (dict_get c key_args)"
proof (induction calls arbitrary: seen uniq)
  case Nil
  then show ?case by simp
next
  case (Cons c calls)
  let ?n = "dict_get c key_name" and ?a = "dict_get c key_args"
  have u: "dedup e (c # calls) seen uniq = Inr r" by (rule Cons.prems(1))
  have hn: "hashable ?n"
    using u by (subst (asm) dedup_unfold) (simp split: if_splits)
  have ha: "hashable ?a"
    using u by (subst (asm) dedup_unfold) (simp split: if_splits)
  have pc: "P c" using Cons.prems(3) by simp
  have pcs: "\<forall>c \<in> set calls. P c" using Cons.prems(3) by simp
  show ?case
  proof (cases "\<exists>(n', a') \<in> set seen. py_eq e ?n n' \<and> py_eq e ?a a'")
    case True
    have "dedup e calls seen uniq = Inr r"
      using u hn ha True by (subst (asm) dedup_unfold) (simp only: not_True_eq_False if_False if_True)
    then show ?thesis by (rule Cons.IH [OF _ Cons.prems(2) pcs])
  next
    case False
    have new: "dedup e calls (seen @ [(?n, ?a)]) (uniq @ [c]) = Inr r"
      using u hn ha False by (subst (asm) dedup_unfold) (simp only: not_True_eq_False if_False if_True)
    have "\<forall>c \<in> set (uniq @ [c]).
            P c \<and> hashable (dict_get c key_name) \<and> hashable (dict_get c key_args)"
      using Cons.prems(2) pc hn ha by simp
    then show ?thesis by (rule Cons.IH [OF new _ pcs])
  qed
qed

lemma parse_tool_calls_result:
  assumes "parse_tool_calls e content = Inr calls"
  shows "\<forall>c \<in> set calls. well_keyed c \<and> hashable (dict_get c key_name)
            \<and> hashable (dict_get c key_args)"
proof -
  from assms obtain tc1 tc2 tc3 tc4 tc5 where
    p1: "pass1 (findall1 pattern1 content) [] = Inr tc1" and
    p2: "pass2 e (concat (map (filter (\<lambda>m. m \<noteq> [])) (findall4 pattern2 content))) tc1 = Inr tc2" and
    p3: "pass3 e (findall1 pattern3 content) tc2 = Inr tc3" and
    p4: "pass4 e (findall1 pattern4 content) tc3 = Inr tc4" and
    p5: "pass3 e (findall1 pattern5 content) tc4 = Inr tc5" and
    d: "dedup e tc5 [] [] = Inr calls"
    by (auto simp: parse_tool_calls_def Let_def split: sum.splits)
  have k1: "\<forall>c \<in> set tc1. well_keyed c" using pass1_keyed [OF p1] by simp
  have k2: "\<forall>c \<in> set tc2. well_keyed c" using pass2_keyed [OF p2 k1] .
  have k3: "\<forall>c \<in> set tc3. well_keyed c" using pass3_keyed [OF p3 k2] .
  have k4: "\<forall>c \<in> set tc4. well_keyed c" using pass4_appends [OF p4] k3 by auto
  have k5: "\<forall>c \<in> set tc5. well_keyed c" using pass3_keyed [OF p5 k4] .
  show ?thesis using dedup_result [OF d, of well_keyed] k5 by simp
qed

text \<open>
  Claim C7, as stated, fails twice. A record whose \<open>args\<close> is a number is returned as
  it is; and pass 1 keeps an \<open>args\<close> that is an object as an object.
\<close>

theorem string_args_counterexample:
  "parse_tool_calls (fixture_env []) reply_number_args =
     Inr [[(key_name, JStr (asc ''x'')), (key_args, JInt 5)]]
   \<and> pass1 [asc ''{\"name\": \"x\", \"args\": {\"a\": 1}}''] [] =
       Inr [[(key_name, JStr (asc ''x'')), (key_args, JObj [(asc ''a'', JInt 1)])]]"
  by (simp add: reply_number_args_def rx_eval json_eval parser_eval)

text \<open>
  Claim C7, amended. Every record the parser returns has the keys \<open>name\<close> and
  \<open>args\<close>, and its \<open>args\<close> is a string, a number, a boolean or \<open>null\<close>, never an
  object or an array. Pass 4 replaces an \<open>args\<close> that is an object by one string: the
  values under the two Korean keys set into a question when both keys are present, the
  printed object otherwise; no record that pass 4 adds has an object as \<open>args\<close>. A
  record made of an SQL directive has the serialized directive, a string, as \<open>args\<close>.
\<close>

theorem returned_args_are_flat:
  "(parse_tool_calls e content = Inr calls \<longrightarrow>
      (\<forall>c \<in> set calls. has_key c key_name \<and> has_key c key_args
          \<and> (case dict_get c key_args of JObj _ \<Rightarrow> False | JArr _ \<Rightarrow> False | _ \<Rightarrow> True)))
   \<and> (\<forall>tc d. dict_get tc key_args = JObj d \<longrightarrow>
          dict_get (flatten_args e tc) key_args =
            JStr (if has_key d key_stock_name \<and> has_key d key_date
                  then fmt e (dict_get d key_stock_name) @ lit_of @
                       fmt e (dict_get d key_date) @ lit_open_price
                  else py_str e (JObj d)))
   \<and> (\<forall>ms tc tc'. pass4 e ms tc = Inr tc' \<longrightarrow>
          (\<exists>new. tc' = tc @ new \<and> (\<forall>c \<in> set new. \<forall>d. dict_get c key_args \<noteq> JObj d)))
   \<and> (\<forall>d. dict_get (sql_call e d) key_args = JStr (json_dumps e d))"
proof -
  have a: "\<forall>c \<in> set calls. has_key c key_name \<and> has_key c key_args
          \<and> (case dict_get c key_args of JObj _ \<Rightarrow> False | JArr _ \<Rightarrow> False | _ \<Rightarrow> True)"
    if "parse_tool_calls e content = Inr calls"
    using parse_tool_calls_result [OF that]
    by (auto simp: well_keyed_def hashable_def split: json.splits)
  have b: "dict_get (flatten_args e tc) key_args =
            JStr (if has_key d key_stock_name \<and> has_key d key_date
                  then fmt e (dict_get d key_stock_name) @ lit_of @
                       fmt e (dict_get d key_date) @ lit_open_price
                  else py_str e (JObj d))"
    if "dict_get tc key_args = JObj d" for tc d
    using that by (simp add: flatten_args_def dict_get_def map_of_dict_set)
  have c: "\<exists>new. tc' = tc @ new \<and> (\<forall>c \<in> set new. \<forall>d. dict_get c key_args \<noteq> JObj d)"
    if "pass4 e ms tc = Inr tc'" for ms tc tc'
    using pass4_appends [OF that] by blast
  have d: "dict_get (sql_call e d) key_args = JStr (json_dumps e d)" for d
    by (simp add: sql_call_def dict_get_def key_name_def key_args_def asc_def)
  show ?thesis using a b c d by blast
qed

text \<open>
  The bare call with structured arguments is matched by pass 4 only, and is returned with
  the question made of the stock name and the date as its \<open>args\<close>.
\<close>

theorem returned_args_are_flat_witness:
  "parse_tool_calls (fixture_env []) object_call =
     Inr [[(key_name, JStr (asc ''get_stock_price'')),
           (key_args, JStr (stock_samsung @ lit_of @ asc ''2024-11-06'' @ lit_open_price))]]
   \<and> has_key [(key_name, JStr (asc ''get_stock_price'')),
               (key_args, JStr (stock_samsung @ lit_of @ asc ''2024-11-06'' @ lit_open_price))]
        key_args"
proof -
  have p: "parse_tool_calls (fixture_env []) object_call =
     Inr [[(key_name, JStr (asc ''get_stock_price'')),
           (key_args, JStr (stock_samsung @ lit_of @ asc ''2024-11-06'' @ lit_open_price))]]"
    by (simp add: object_call_def stock_samsung_def rx_eval json_eval parser_eval fmt_def
        lit_of_def lit_open_price_def)
  from returned_args_are_flat [of "fixture_env []" object_call] p
  show ?thesis by simp
qed

subsection \<open>The parameter extractor\<close>

lemma rx_search_no_brace: "123 \<notin> set s \<Longrightarrow> rx_search extract_rx s = None"
  by (induction s) (simp_all add: rx_at_Nil rx_at_skip)

text \<open>
  Claim C9, as stated, fails. On the reply \<open>{"a": "}"}\<close> the pattern finds the span
  \<open>{"a": "}\<close>, which does not decode, and the extractor returns the empty mapping
  without trying the entire reply, which does decode: the extractor worded as the claim
  returns the mapping of \<open>a\<close> to \<open>}\<close>.
\<close>

theorem whole_reply_not_tried_counterexample:
  "extract_parameters (fixture_env reply_brace_in_string) (asc ''q'') [] [] = JObj []
   \<and> json_loads (strip reply_brace_in_string) = Some (JObj [(asc ''a'', JStr (asc ''}''))])
   \<and> extract_parameters_spec (fixture_env reply_brace_in_string) (asc ''q'') [] [] =
       JObj [(asc ''a'', JStr (asc ''}''))]"
  by (simp add: extract_parameters_def extract_parameters_spec_def fixture_env_def
      reply_brace_in_string_def rx_eval json_eval)

text \<open>
  Claim C9, amended. The extractor returns a value for every reply of the model, and the
  empty mapping when the call of the model raises. It searches the trimmed reply for the
  first brace span. When a span is found the result is the decoding of the span, or the
  empty mapping when the span does not decode; the entire reply is not tried then. Only
  when no span is found, as for every reply without an opening brace, is the entire
  trimmed reply decoded, the result being the empty mapping when that fails. So the
  extractor agrees with the extractor worded as the claim except when a span is found that
  does not decode, where it returns the empty mapping.
\<close>

theorem extract_parameters_span_first:
  "(\<forall>ex. llm_simple e (extract_prompt q schema rules) = Inl ex \<longrightarrow>
        extract_parameters e q schema rules = JObj [])
   \<and> (\<forall>reply. llm_simple e (extract_prompt q schema rules) = Inr reply \<longrightarrow>
        (\<forall>rest c. rx_search extract_rx (strip reply) = Some (rest, c) \<longrightarrow>
            extract_parameters e q schema rules =
              (case json_loads (group c 0) of Some v \<Rightarrow> v | None \<Rightarrow> JObj []))
        \<and> (rx_search extract_rx (strip reply) = None \<longrightarrow>
            extract_parameters e q schema rules =
              (case json_loads (strip reply) of Some v \<Rightarrow> v | None \<Rightarrow> JObj []))
        \<and> (123 \<notin> set (strip reply) \<longrightarrow> rx_search extract_rx (strip reply) = None))
   \<and> extract_parameters e q schema rules =
       (if \<exists>reply rest c. llm_simple e (extract_prompt q schema rules) = Inr reply
              \<and> rx_search extract_rx (strip reply) = Some (rest, c)
              \<and> json_loads (group c 0) = None
        then JObj [] else extract_parameters_spec e q schema rules)"
proof -
  have a: "extract_parameters e q schema rules = JObj []"
    if "llm_simple e (extract_prompt q schema rules) = Inl ex" for ex
    using that by (simp add: extract_parameters_def)
  have b: "extract_parameters e q schema rules =
              (case json_loads (group c 0) of Some v \<Rightarrow> v | None \<Rightarrow> JObj [])"
    if "llm_simple e (extract_prompt q schema rules) = Inr reply"
      "rx_search extract_rx (strip reply) = Some (rest, c)" for reply rest c
    using that by (simp add: extract_parameters_def)
  have c: "extract_parameters e q schema rules =
              (case json_loads (strip reply) of Some v \<Rightarrow> v | None \<Rightarrow> JObj [])"
    if "llm_simple e (extract_prompt q schema rules) = Inr reply"
      "rx_search extract_rx (strip reply) = None" for reply
    using that by (simp add: extract_parameters_def)
  have d: "extract_parameters e q schema rules =
       (if \<exists>reply rest c. llm_simple e (extract_prompt q schema rules) = Inr reply
              \<and> rx_search extract_rx (strip reply) = Some (rest, c)
              \<and> json_loads (group c 0) = None
        then JObj [] else extract_parameters_spec e q schema rules)"
  proof (cases "llm_simple e (extract_prompt q schema rules)")
    case (Inl ex)
    then show ?thesis by (simp add: extract_parameters_def extract_parameters_spec_def)
  next
    case (Inr reply)
    show ?thesis
    proof (cases "rx_search extract_rx (strip reply)")
      case None
      then show ?thesis
        using Inr by (simp add: extract_parameters_def extract_parameters_spec_def)
    next
      case (Some m)
      obtain rest c where m: "m = (rest, c)" by (cases m)
      show ?thesis
      proof (cases "json_loads (group c 0)")
        case None
        then show ?thesis
          using Inr Some m by (simp add: extract_parameters_def)
      next
        case (Some v)
        then show ?thesis
          using Inr \<open>rx_search extract_rx (strip reply) = Some m\<close> m
          by (simp add: extract_parameters_def extract_parameters_spec_def)
      qed
    qed
  qed
  show ?thesis
    using a b c d rx_search_no_brace by blast
qed

text \<open>
  The reply \<open>ok {"n": 5}\<close>: the span is found after the word and decodes, although the
  entire reply does not.
\<close>

theorem extract_parameters_span_first_witness:
  "llm_simple (fixture_env reply_after_word) (extract_prompt (asc ''q'') [] []) =
     Inr reply_after_word
   \<and> (\<exists>rest c. rx_search extract_rx (strip reply_after_word) = Some (rest, c)
         \<and> group c 0 = asc ''{\"n\": 5}'')
   \<and> json_loads (strip reply_after_word) = None
   \<and> extract_parameters (fixture_env reply_after_word) (asc ''q'') [] [] =
       JObj [(asc ''n'', JInt 5)]"
proof -
  have l: "llm_simple (fixture_env reply_after_word) (extract_prompt (asc ''q'') [] []) =
     Inr reply_after_word"
    by (simp add: fixture_env_def)
  have s: "\<exists>rest c. rx_search extract_rx (strip reply_after_word) = Some (rest, c)
         \<and> group c 0 = asc ''{\"n\": 5}''"
    by (simp add: reply_after_word_def rx_eval json_eval)
  have w: "json_loads (strip reply_after_word) = None"
    by (simp add: reply_after_word_def rx_eval json_eval)
  have j: "json_loads (asc ''{\"n\": 5}'') = Some (JObj [(asc ''n'', JInt 5)])"
    by (simp add: rx_eval json_eval)
  from extract_parameters_span_first
         [of "fixture_env reply_after_word" "asc ''q''" "[]" "[]"] l s w j
  show ?thesis by auto
qed

end
